theory Spec2Isabelle
  imports Main "HOL-Library.AList" "HOL-Library.Sublist"
begin

section \<open>ASMP: the package cache, the installed ledger and the registry client\<close>

text \<open>
  A shallow embedding of \<^verbatim>\<open>asmp.py\<close> (class \<^verbatim>\<open>ASMPClient\<close> and the
  \<^verbatim>\<open>uninstall\<close> branch of \<^verbatim>\<open>main\<close>).

  Scope of the model.
  \<^item> Values are what \<^verbatim>\<open>json.load\<close> produces: \<^verbatim>\<open>None\<close>, booleans, integers,
    strings, lists and dicts. JSON numbers with a fraction or an exponent (Python floats)
    are left out; no modelled operation computes with numbers.
  \<^item> A Python \<^verbatim>\<open>str\<close> is a HOL \<open>string\<close>: a list of 8-bit characters, each read as
    the code point of the same number, U+0000 to U+00FF (ASCII and Latin-1). A \<^verbatim>\<open>str\<close>
    with a code point above U+00FF has no counterpart in this type.
  \<^item> A dict is an association list in insertion order; assigning to a key that is present
    keeps its position and a new key goes to the end, which is \<open>AList.update\<close>.
  \<^item> A file is either absent or holds a text, of which only the outcome of
    \<^verbatim>\<open>json.load\<close> is kept: the decoded value, or the fact that decoding fails.
    Opening for writing and \<^verbatim>\<open>json.dump\<close> are taken to succeed (no full disk, no
    permission error); every such write is also recorded in a trace, so that
    "the file was not written" can be told apart from "the same text was written again".
  \<^item> \<^verbatim>\<open>int(time.time())\<close> is an argument of the function that reads the clock.
  \<^item> Printing is left out, but every expression a \<^verbatim>\<open>print\<close> evaluates that can raise
    is kept. The two messages of the \<^verbatim>\<open>uninstall\<close> branch are kept as well: they are
    the only report of its outcome.
\<close>

subsection \<open>Python values\<close>

datatype json =
    JNull
  | JBool bool
  | JInt int
  | JStr string
  | JArr "json list"
  | JObj "(string \<times> json) list"

datatype py_error =
    FileNotFoundError
  | JSONDecodeError
  | KeyError
  | TypeError
  | AttributeError

text \<open>Sequencing of two steps either of which may raise.\<close>

definition andthen :: "py_error + 'a \<Rightarrow> ('a \<Rightarrow> py_error + 'b) \<Rightarrow> py_error + 'b" where
  "andthen m f = (case m of Inl e \<Rightarrow> Inl e | Inr x \<Rightarrow> f x)"

text \<open>Truth value of an object, as \<^verbatim>\<open>if x\<close>, \<^verbatim>\<open>not x\<close>, \<^verbatim>\<open>x and y\<close> take it.\<close>

fun truthy :: "json \<Rightarrow> bool" where
  "truthy JNull = False"
| "truthy (JBool b) = b"
| "truthy (JInt n) = (n \<noteq> 0)"
| "truthy (JStr s) = (s \<noteq> [])"
| "truthy (JArr xs) = (xs \<noteq> [])"
| "truthy (JObj kvs) = (kvs \<noteq> [])"

text \<open>\<^verbatim>\<open>x == y\<close>: \<^verbatim>\<open>True == 1\<close>, lists compare elementwise, dicts regardless of order.\<close>

fun py_eq :: "json \<Rightarrow> json \<Rightarrow> bool" where
  "py_eq JNull JNull = True"
| "py_eq (JBool a) (JBool b) = (a = b)"
| "py_eq (JBool a) (JInt n) = (of_bool a = n)"
| "py_eq (JInt m) (JBool b) = (m = of_bool b)"
| "py_eq (JInt m) (JInt n) = (m = n)"
| "py_eq (JStr s) (JStr t) = (s = t)"
| "py_eq (JArr xs) (JArr ys) = list_all2 py_eq xs ys"
| "py_eq (JObj kvs) (JObj kws) =
     (length kvs = length kws \<and>
      list_all (\<lambda>(k, v). case map_of kws k of None \<Rightarrow> False | Some w \<Rightarrow> py_eq v w) kvs)"
| "py_eq _ _ = False"

text \<open>\<^verbatim>\<open>x.get(k, default)\<close>: only a dict has the method.\<close>

fun dict_get :: "json \<Rightarrow> string \<Rightarrow> json \<Rightarrow> py_error + json" where
  "dict_get (JObj kvs) k d = Inr (case map_of kvs k of None \<Rightarrow> d | Some v \<Rightarrow> v)"
| "dict_get _ k d = Inl AttributeError"

text \<open>\<^verbatim>\<open>x[k]\<close> for a string \<open>k\<close>: a missing key is a KeyError, and no other kind of value
  can be indexed by a string.\<close>

fun subscript :: "json \<Rightarrow> string \<Rightarrow> py_error + json" where
  "subscript (JObj kvs) k = (case map_of kvs k of None \<Rightarrow> Inl KeyError | Some v \<Rightarrow> Inr v)"
| "subscript _ k = Inl TypeError"

text \<open>\<^verbatim>\<open>x[k] = v\<close> for a string \<open>k\<close>.\<close>

fun set_item :: "json \<Rightarrow> string \<Rightarrow> json \<Rightarrow> py_error + json" where
  "set_item (JObj kvs) k v = Inr (JObj (AList.update k v kvs))"
| "set_item _ k v = Inl TypeError"

text \<open>\<^verbatim>\<open>for x in v\<close>: a list gives its elements, a dict its keys, a string its characters.\<close>

fun py_iter :: "json \<Rightarrow> py_error + json list" where
  "py_iter (JArr xs) = Inr xs"
| "py_iter (JObj kvs) = Inr (map (\<lambda>kv. JStr (fst kv)) kvs)"
| "py_iter (JStr s) = Inr (map (\<lambda>c. JStr [c]) s)"
| "py_iter _ = Inl TypeError"

text \<open>\<^verbatim>\<open>str.lower\<close> on one code point below U+0100. The cased capitals there are
  \<open>A\<close>..\<open>Z\<close> (65..90) and U+00C0..U+00DE (192..222) without the multiplication sign
  U+00D7 (215); the small letter is 32 higher, which sets the bit of weight 32. Every other
  code point below U+0100 is its own lowercase, and no lowercase leaves this range.\<close>

fun lower_char :: "char \<Rightarrow> char" where
  "lower_char (Char b0 b1 b2 b3 b4 b5 b6 b7) =
     (let n = of_char (Char b0 b1 b2 b3 b4 b5 b6 b7) :: nat
      in if 65 \<le> n \<and> n \<le> 90 \<or> 192 \<le> n \<and> n \<le> 222 \<and> n \<noteq> 215
         then Char b0 b1 b2 b3 b4 True b6 b7
         else Char b0 b1 b2 b3 b4 b5 b6 b7)"

definition lower :: "string \<Rightarrow> string" where
  "lower s = map lower_char s"

text \<open>\<^verbatim>\<open>x.lower()\<close>: only a string has the method.\<close>

fun str_lower :: "json \<Rightarrow> py_error + string" where
  "str_lower (JStr s) = Inr (lower s)"
| "str_lower _ = Inl AttributeError"

fun strs :: "json list \<Rightarrow> py_error + string list" where
  "strs [] = Inr []"
| "strs (JStr s # xs) = andthen (strs xs) (\<lambda>ss. Inr (s # ss))"
| "strs (_ # xs) = Inl TypeError"

fun intercalate :: "string \<Rightarrow> string list \<Rightarrow> string" where
  "intercalate sep [] = []"
| "intercalate sep [s] = s"
| "intercalate sep (s # ss) = s @ sep @ intercalate sep ss"

text \<open>\<^verbatim>\<open>sep.join(x)\<close>: \<open>x\<close> must be iterable and yield strings only.\<close>

definition join :: "string \<Rightarrow> json \<Rightarrow> py_error + string" where
  "join sep x = andthen (py_iter x) (\<lambda>xs. andthen (strs xs) (\<lambda>ss. Inr (intercalate sep ss)))"

text \<open>Keys of a Python dict: \<^verbatim>\<open>None\<close>, booleans, integers and strings hash (and
  \<^verbatim>\<open>True\<close> is the key \<^verbatim>\<open>1\<close>); lists and dicts are unhashable.\<close>

datatype pykey = KNone | KInt int | KStr string

fun hash_key :: "json \<Rightarrow> py_error + pykey" where
  "hash_key JNull = Inr KNone"
| "hash_key (JBool b) = Inr (KInt (of_bool b))"
| "hash_key (JInt n) = Inr (KInt n)"
| "hash_key (JStr s) = Inr (KStr s)"
| "hash_key _ = Inl TypeError"

subsection \<open>The three files\<close>

datatype path = ConfigFile | PackagesFile | InstalledFile

text \<open>What \<^verbatim>\<open>json.load\<close> makes of a file's text.\<close>

datatype content = Json json | NotJson

record fs =
  files :: "path \<Rightarrow> content option"
  written :: "path list"

text \<open>\<^verbatim>\<open>with open(p, 'r') as f: json.load(f)\<close>\<close>

definition load :: "path \<Rightarrow> fs \<Rightarrow> py_error + json" where
  "load p s =
     (case files s p of
        None \<Rightarrow> Inl FileNotFoundError
      | Some NotJson \<Rightarrow> Inl JSONDecodeError
      | Some (Json v) \<Rightarrow> Inr v)"

text \<open>\<^verbatim>\<open>with open(p, 'w') as f: json.dump(v, f, ...)\<close>\<close>

definition dump :: "path \<Rightarrow> json \<Rightarrow> fs \<Rightarrow> fs" where
  "dump p v s = s\<lparr>files := (files s)(p \<mapsto> Json v), written := written s @ [p]\<rparr>"

text \<open>\<^verbatim>\<open>__version__\<close>\<close>

definition dunder_version :: string where
  "dunder_version = ''0.1.0''"

subsection \<open>\<^verbatim>\<open>search_local\<close>\<close>

text \<open>The condition of the loop body; \<^verbatim>\<open>or\<close> evaluates its right operand only when
  the left one is false.\<close>

definition pkg_matches :: "string \<Rightarrow> json \<Rightarrow> py_error + bool" where
  "pkg_matches query pkg =
     andthen (subscript pkg ''name'') (\<lambda>name.
     andthen (str_lower name) (\<lambda>n.
       if sublist (lower query) n then Inr True
       else
         andthen (dict_get pkg ''description'' (JStr [])) (\<lambda>description.
         andthen (str_lower description) (\<lambda>d.
           if sublist (lower query) d then Inr True
           else
             andthen (dict_get pkg ''tags'' (JArr [])) (\<lambda>tags.
             andthen (join '' '' tags) (\<lambda>j.
               Inr (sublist (lower query) (lower j))))))))"

fun found_packages :: "string \<Rightarrow> json list \<Rightarrow> py_error + json list" where
  "found_packages query [] = Inr []"
| "found_packages query (pkg # pkgs) =
     andthen (pkg_matches query pkg) (\<lambda>m.
     andthen (found_packages query pkgs) (\<lambda>found.
       Inr (if m then pkg # found else found)))"

text \<open>The body of the \<^verbatim>\<open>try\<close>.\<close>

definition search_local_body :: "fs \<Rightarrow> string \<Rightarrow> py_error + json list" where
  "search_local_body s query =
     andthen (load PackagesFile s) (\<lambda>packages_data.
     andthen (dict_get packages_data ''packages'' (JArr [])) (\<lambda>packages.
     andthen (py_iter packages) (found_packages query)))"

text \<open>\<^verbatim>\<open>except Exception\<close>: whatever was raised, the result is the empty list.\<close>

definition search_local :: "fs \<Rightarrow> string \<Rightarrow> json list" where
  "search_local s query =
     (case search_local_body s query of Inl e \<Rightarrow> [] | Inr found \<Rightarrow> found)"

subsection \<open>\<^verbatim>\<open>get_installed_packages\<close>\<close>

text \<open>Only \<^verbatim>\<open>FileNotFoundError\<close> is caught.\<close>

definition get_installed_packages :: "fs \<Rightarrow> py_error + json" where
  "get_installed_packages s =
     (case load InstalledFile s of
        Inl e \<Rightarrow> if e = FileNotFoundError then Inr (JArr []) else Inl e
      | Inr installed \<Rightarrow> Inr installed)"

subsection \<open>\<^verbatim>\<open>update_local_cache\<close>\<close>

text \<open>The name-keyed dict \<open>local_packages\<close>: the dict comprehension over the stored list and
  the \<^verbatim>\<open>for\<close> loop over the incoming list both run \<^verbatim>\<open>local_packages[pkg["name"]] = pkg\<close>
  for each element, the comprehension starting from the empty dict.\<close>

fun by_name :: "(pykey \<times> json) list \<Rightarrow> json list \<Rightarrow> py_error + (pykey \<times> json) list" where
  "by_name local_packages [] = Inr local_packages"
| "by_name local_packages (pkg # pkgs) =
     andthen (subscript pkg ''name'') (\<lambda>name.
     andthen (hash_key name) (\<lambda>k.
       by_name (AList.update k pkg local_packages) pkgs))"

text \<open>The body of the \<^verbatim>\<open>try\<close> up to the value that is dumped.\<close>

definition update_local_cache_body :: "fs \<Rightarrow> json \<Rightarrow> int \<Rightarrow> py_error + json" where
  "update_local_cache_body s packages now =
     andthen (load PackagesFile s) (\<lambda>local_data.
     andthen (dict_get local_data ''packages'' (JArr [])) (\<lambda>stored.
     andthen (py_iter stored) (\<lambda>stored_pkgs.
     andthen (by_name [] stored_pkgs) (\<lambda>local_packages.
     andthen (py_iter packages) (\<lambda>pkgs.
     andthen (by_name local_packages pkgs) (\<lambda>local_packages.
     andthen (set_item local_data ''packages'' (JArr (map snd local_packages))) (\<lambda>local_data.
     andthen (set_item local_data ''last_updated'' (JInt now)) (\<lambda>local_data.
       set_item local_data ''client_version'' (JStr dunder_version)))))))))"

text \<open>\<^verbatim>\<open>except Exception\<close>: a warning is printed and nothing has been written.\<close>

definition update_local_cache :: "fs \<Rightarrow> json \<Rightarrow> int \<Rightarrow> fs" where
  "update_local_cache s packages now =
     (case update_local_cache_body s packages now of
        Inl e \<Rightarrow> s
      | Inr local_data \<Rightarrow> dump PackagesFile local_data s)"

subsection \<open>\<^verbatim>\<open>make_request\<close>\<close>

text \<open>The arguments of \<^verbatim>\<open>session.post\<close>. \<^verbatim>\<open>urljoin\<close> is not evaluated: the call
  keeps the base URL and the endpoint.\<close>

record post_call =
  base :: string
  endpoint :: string
  json_body :: "(string \<times> json) list"
  timeout :: int

text \<open>What \<^verbatim>\<open>session.post\<close>, \<^verbatim>\<open>raise_for_status\<close> and \<^verbatim>\<open>response.json()\<close> end in: one of
  the four exceptions that \<^verbatim>\<open>make_request\<close> catches, or the decoded body.\<close>

datatype reply = ConnectionError | Timeout | RequestException | BadJson | Reply json

definition session_post :: "string \<Rightarrow> string \<Rightarrow> (string \<times> json) list \<Rightarrow> int \<Rightarrow> post_call" where
  "session_post base_url ep data now =
     (let base_request =
            [(''app_name'', JStr ''ADK - ArtStudia Developer Kit''),
             (''api_version'', JStr ''0.1.0''),
             (''client_version'', JStr dunder_version),
             (''timestamp'', JInt now)];
          base_request =
            (if data \<noteq> [] then fold (\<lambda>kv. AList.update (fst kv) (snd kv)) data base_request
             else base_request)
      in \<lparr>base = base_url, endpoint = ep, json_body = base_request, timeout = 30\<rparr>)"

text \<open>The remote side is a function from the call to its outcome. \<^verbatim>\<open>None\<close> is \<open>JNull\<close>.\<close>

definition make_request ::
  "(post_call \<Rightarrow> reply) \<Rightarrow> string \<Rightarrow> string \<Rightarrow> (string \<times> json) list \<Rightarrow> int \<Rightarrow> json" where
  "make_request transport base_url ep data now =
     (case transport (session_post base_url ep data now) of
        Reply response \<Rightarrow> response
      | _ \<Rightarrow> JNull)"

text \<open>The test \<^verbatim>\<open>response and response.get("success")\<close>.\<close>

definition succeeded :: "json \<Rightarrow> py_error + bool" where
  "succeeded response =
     (if truthy response
      then andthen (dict_get response ''success'' JNull) (\<lambda>ok. Inr (truthy ok))
      else Inr False)"

subsection \<open>\<^verbatim>\<open>search_remote\<close>\<close>

text \<open>The local \<open>request_data\<close> of \<^verbatim>\<open>search_remote\<close>.\<close>

definition search_request_data :: "string \<Rightarrow> (string \<times> json) list" where
  "search_request_data query =
     [(''type_request'', JStr ''search''),
      (''query'', JStr query),
      (''filters'', JObj [(''type'', JArr [JStr ''library'', JStr ''tool'']),
                          (''status'', JArr [JStr ''stable'', JStr ''beta''])])]"

definition search_remote ::
  "(post_call \<Rightarrow> reply) \<Rightarrow> string \<Rightarrow> fs \<Rightarrow> string \<Rightarrow> int \<Rightarrow> int \<Rightarrow> (py_error + json) \<times> fs" where
  "search_remote transport base_url s query t_request t_cache =
     (let request_data = search_request_data query;
          response = make_request transport base_url ''/api/packages/search'' request_data t_request
      in case succeeded response of
           Inl e \<Rightarrow> (Inl e, s)
         | Inr ok \<Rightarrow>
             if ok then
               (case dict_get response ''packages'' (JArr []) of
                  Inl e \<Rightarrow> (Inl e, s)
                | Inr packages \<Rightarrow> (Inr packages, update_local_cache s packages t_cache))
             else (Inr (JArr (search_local s query)), s))"

subsection \<open>The installed ledger\<close>

text \<open>\<^verbatim>\<open>[p for p in installed if p["name"] != package_info["name"]]\<close>\<close>

fun without_package :: "json \<Rightarrow> json list \<Rightarrow> py_error + json list" where
  "without_package package_info [] = Inr []"
| "without_package package_info (p # ps) =
     andthen (subscript p ''name'') (\<lambda>a.
     andthen (subscript package_info ''name'') (\<lambda>b.
     andthen (without_package package_info ps) (\<lambda>rest.
       Inr (if py_eq a b then rest else p # rest))))"

definition save_installed_package :: "fs \<Rightarrow> json \<Rightarrow> int \<Rightarrow> (py_error + json) \<times> fs" where
  "save_installed_package s package_info now =
     (case andthen (get_installed_packages s) (\<lambda>installed.
           andthen (py_iter installed) (\<lambda>ps.
           andthen (without_package package_info ps) (\<lambda>installed.
           andthen (set_item package_info ''installed_at'' (JInt now)) (\<lambda>package_info.
           andthen (set_item package_info ''installed_by'' (JStr ''asmp'')) (\<lambda>package_info.
           andthen (set_item package_info ''client_version'' (JStr dunder_version)) (\<lambda>package_info.
             Inr (package_info, installed @ [package_info]))))))) of
        Inl e \<Rightarrow> (Inl e, s)
      | Inr (package_info, installed) \<Rightarrow> (Inr package_info, dump InstalledFile (JArr installed) s))"

text \<open>The \<^verbatim>\<open>uninstall\<close> branch of \<^verbatim>\<open>main\<close>. The generator handed to \<^verbatim>\<open>next\<close> stops at the
  first entry with the name; \<^verbatim>\<open>None\<close> is \<open>JNull\<close>.\<close>

fun first_named :: "string \<Rightarrow> json list \<Rightarrow> py_error + json" where
  "first_named package_name [] = Inr JNull"
| "first_named package_name (p # ps) =
     andthen (subscript p ''name'') (\<lambda>a.
       if py_eq a (JStr package_name) then Inr p else first_named package_name ps)"

fun without_name :: "string \<Rightarrow> json list \<Rightarrow> py_error + json list" where
  "without_name package_name [] = Inr []"
| "without_name package_name (p # ps) =
     andthen (subscript p ''name'') (\<lambda>a.
     andthen (without_name package_name ps) (\<lambda>rest.
       Inr (if py_eq a (JStr package_name) then rest else p # rest)))"

text \<open>The two lines the branch can print, with the package name they mention: that the
  package is not installed, and that it has been removed.\<close>

datatype message = NotInstalled string | Removed string

text \<open>The branch has no \<^verbatim>\<open>return\<close>: after either message \<^verbatim>\<open>main\<close> runs to its end and
  returns \<^verbatim>\<open>None\<close>. The result is the exception raised or the value returned, the lines
  printed, and the files.\<close>

definition uninstall :: "fs \<Rightarrow> string \<Rightarrow> (py_error + json) \<times> message list \<times> fs" where
  "uninstall s package_name =
     (case get_installed_packages s of
        Inl e \<Rightarrow> (Inl e, [], s)
      | Inr installed \<Rightarrow>
          (case andthen (py_iter installed) (first_named package_name) of
             Inl e \<Rightarrow> (Inl e, [], s)
           | Inr package \<Rightarrow>
               if \<not> truthy package then (Inr JNull, [NotInstalled package_name], s)
               else
                 (case andthen (py_iter installed) (without_name package_name) of
                    Inl e \<Rightarrow> (Inl e, [], s)
                  | Inr rest \<Rightarrow>
                      (Inr JNull, [Removed package_name],
                       dump InstalledFile (JArr rest) s))))"

subsection \<open>Installing\<close>

text \<open>\<open>version\<close> is \<open>JNull\<close> when no \<^verbatim>\<open>--version\<close> was given, a string otherwise.\<close>

definition info_request_data :: "string \<Rightarrow> json \<Rightarrow> (string \<times> json) list" where
  "info_request_data package_name version =
     [(''type_request'', JStr ''package_info''),
      (''package_name'', JStr package_name),
      (''version'', version)]"

definition download_request_data :: "string \<Rightarrow> json \<Rightarrow> (string \<times> json) list" where
  "download_request_data package_name resolved =
     [(''type_request'', JStr ''download''),
      (''package_name'', JStr package_name),
      (''version'', resolved)]"

definition get_package_info_remote ::
  "(post_call \<Rightarrow> reply) \<Rightarrow> string \<Rightarrow> string \<Rightarrow> json \<Rightarrow> int \<Rightarrow> py_error + json" where
  "get_package_info_remote transport base_url package_name version now =
     (let request_data = info_request_data package_name version;
          response = make_request transport base_url ''/api/packages/info'' request_data now
      in andthen (succeeded response) (\<lambda>ok.
           if ok then dict_get response ''package'' JNull else Inr JNull))"

text \<open>The progress loop cannot raise and is left out. After the ledger is saved, the two
  subscripts of the final \<^verbatim>\<open>print\<close> are evaluated on the stamped \<open>package_info\<close>, still
  inside the \<^verbatim>\<open>try\<close>.\<close>

definition download_and_install :: "fs \<Rightarrow> json \<Rightarrow> json \<Rightarrow> json \<Rightarrow> int \<Rightarrow> bool \<times> fs" where
  "download_and_install s package_info download_url install_script now =
     (case andthen (dict_get package_info ''dependencies'' (JArr [])) (\<lambda>dependencies.
             if truthy dependencies then py_iter dependencies else Inr []) of
        Inl e \<Rightarrow> (False, s)
      | Inr deps \<Rightarrow>
          (case save_installed_package s package_info now of
             (Inl e, s') \<Rightarrow> (False, s')
           | (Inr package_info, s') \<Rightarrow>
               (case andthen (subscript package_info ''name'') (\<lambda>n.
                     subscript package_info ''version'') of
                  Inl e \<Rightarrow> (False, s')
                | Inr v \<Rightarrow> (True, s'))))"

text \<open>Between the two requests the \<^verbatim>\<open>print\<close> calls subscript and join fields of
  \<open>package_info\<close> outside any \<^verbatim>\<open>try\<close>; the last step is
  \<^verbatim>\<open>version or package_info["version"]\<close>.\<close>

definition install_package_remote ::
  "(post_call \<Rightarrow> reply) \<Rightarrow> string \<Rightarrow> fs \<Rightarrow> string \<Rightarrow> json \<Rightarrow> int \<Rightarrow> int \<Rightarrow> int
     \<Rightarrow> (py_error + bool) \<times> fs" where
  "install_package_remote transport base_url s package_name version t_info t_download t_install =
     (case get_package_info_remote transport base_url package_name version t_info of
        Inl e \<Rightarrow> (Inl e, s)
      | Inr package_info \<Rightarrow>
          if \<not> truthy package_info then (Inr False, s)
          else
            (case andthen (subscript package_info ''name'') (\<lambda>n.
                  andthen (subscript package_info ''version'') (\<lambda>v.
                  andthen (dict_get package_info ''description'' JNull) (\<lambda>d.
                  andthen (dict_get package_info ''author'' JNull) (\<lambda>a.
                  andthen (dict_get package_info ''dependencies'' (JArr [])) (\<lambda>dependencies.
                  andthen (if truthy dependencies then join '', '' dependencies else Inr []) (\<lambda>j.
                    if truthy version then Inr version
                    else subscript package_info ''version'')))))) of
               Inl e \<Rightarrow> (Inl e, s)
             | Inr resolved \<Rightarrow>
                 (let download_data = download_request_data package_name resolved;
                      response =
                        make_request transport base_url ''/api/packages/download'' download_data
                          t_download
                  in case succeeded response of
                       Inl e \<Rightarrow> (Inl e, s)
                     | Inr ok \<Rightarrow>
                         if ok then
                           (case andthen (dict_get response ''download_url'' JNull) (\<lambda>download_url.
                                 andthen (dict_get response ''install_script'' JNull) (\<lambda>install_script.
                                   Inr (download_url, install_script))) of
                              Inl e \<Rightarrow> (Inl e, s)
                            | Inr (download_url, install_script) \<Rightarrow>
                                (case download_and_install s package_info download_url
                                        install_script t_install of
                                   (r, s') \<Rightarrow> (Inr r, s')))
                         else (Inr False, s))))"

subsection \<open>Configuration and first run\<close>

definition config_record :: "json \<Rightarrow> json" where
  "config_record server_url =
     JObj [(''server_url'', server_url),
           (''auto_update'', JBool True),
           (''timeout'', JInt 30),
           (''client_version'', JStr dunder_version)]"

definition default_packages :: "int \<Rightarrow> json" where
  "default_packages now =
     JObj [(''packages'', JArr
              [JObj [(''name'', JStr ''launcher_updater''),
                     (''version'', JStr ''1.0.0''),
                     (''description'', JStr ''Launcher and updater for ArtStudia applications''),
                     (''author'', JStr ''ArtTeam''),
                     (''license'', JStr ''MIT''),
                     (''type'', JStr ''tool''),
                     (''tags'', JArr [JStr ''launcher'', JStr ''updater'', JStr ''gui'']),
                     (''source'', JStr ''https://github.com/artteam9/launcher_updater.git''),
                     (''source_type'', JStr ''git'')],
               JObj [(''name'', JStr ''artutils''),
                     (''version'', JStr ''1.2.0''),
                     (''description'', JStr ''Utility functions for ArtTeam projects''),
                     (''author'', JStr ''ArtTeam''),
                     (''license'', JStr ''MIT''),
                     (''type'', JStr ''library''),
                     (''tags'', JArr [JStr ''utilities'', JStr ''helpers'', JStr ''tools'']),
                     (''source'', JStr ''artutils''),
                     (''source_type'', JStr ''pypi'')]]),
           (''last_updated'', JInt now),
           (''client_version'', JStr dunder_version)]"

text \<open>\<^verbatim>\<open>init_config\<close> returns the state of the files and, when it does not raise, the value
  of \<^verbatim>\<open>self.base_url\<close> it leaves (whatever the stored \<^verbatim>\<open>server_url\<close> is).\<close>

definition init_config :: "string \<Rightarrow> fs \<Rightarrow> int \<Rightarrow> (py_error + json) \<times> fs" where
  "init_config base_url s now =
     (case (case files s ConfigFile of
              Some c \<Rightarrow>
                (case andthen (load ConfigFile s) (\<lambda>config.
                      dict_get config ''server_url'' (JStr base_url)) of
                   Inl e \<Rightarrow> (Inl e, s)
                 | Inr url \<Rightarrow> (Inr url, s))
            | None \<Rightarrow> (Inr (JStr base_url), dump ConfigFile (config_record (JStr base_url)) s)) of
        (Inl e, s1) \<Rightarrow> (Inl e, s1)
      | (Inr url, s1) \<Rightarrow>
          (let s2 = (if files s1 PackagesFile = None
                     then dump PackagesFile (default_packages now) s1 else s1);
               s3 = (if files s2 InstalledFile = None
                     then dump InstalledFile (JArr []) s2 else s2)
           in (Inr url, s3)))"

definition update_server_url :: "fs \<Rightarrow> string \<Rightarrow> fs" where
  "update_server_url s new_url = dump ConfigFile (config_record (JStr new_url)) s"

text \<open>The timeout that \<^verbatim>\<open>show_config\<close> reports: \<^verbatim>\<open>config.get('timeout', 30)\<close> of the
  stored configuration.\<close>

definition show_config_timeout :: "fs \<Rightarrow> py_error + json" where
  "show_config_timeout s =
     andthen (load ConfigFile s) (\<lambda>config. dict_get config ''timeout'' (JInt 30))"

subsection \<open>Well-typed package records and the specification of local search\<close>

text \<open>The data model types a package record: \<open>name\<close> is a string, \<open>description\<close> a string
  and \<open>tags\<close> a list of strings; the last two may be missing, as the code gives them defaults.\<close>

fun is_str :: "json \<Rightarrow> bool" where
  "is_str (JStr s) = True"
| "is_str _ = False"

fun is_str_list :: "json \<Rightarrow> bool" where
  "is_str_list (JArr ts) = list_all is_str ts"
| "is_str_list _ = False"

fun the_str :: "json \<Rightarrow> string" where
  "the_str (JStr s) = s"
| "the_str _ = []"

fun the_list :: "json \<Rightarrow> json list" where
  "the_list (JArr xs) = xs"
| "the_list _ = []"

fun field :: "json \<Rightarrow> string \<Rightarrow> json option" where
  "field (JObj kvs) k = map_of kvs k"
| "field _ k = None"

definition wt_record :: "json \<Rightarrow> bool" where
  "wt_record r \<longleftrightarrow>
     (case field r ''name'' of None \<Rightarrow> False | Some n \<Rightarrow> is_str n) \<and>
     (case field r ''description'' of None \<Rightarrow> True | Some d \<Rightarrow> is_str d) \<and>
     (case field r ''tags'' of None \<Rightarrow> True | Some ts \<Rightarrow> is_str_list ts)"

text \<open>The tags joined by single spaces: the first tag, then every further tag behind a
  space.\<close>

fun space_joined :: "string list \<Rightarrow> string" where
  "space_joined [] = []"
| "space_joined (t # ts) = t @ concat (map (\<lambda>u. CHR '' '' # u) ts)"

text \<open>Local search as the specification words it: the lowercased query is a substring of the
  lowercased name, or of the lowercased description, or of the lowercased space-joined tags.\<close>

definition spec_match :: "string \<Rightarrow> json \<Rightarrow> bool" where
  "spec_match q r \<longleftrightarrow>
     sublist (lower q) (lower (case field r ''name'' of None \<Rightarrow> [] | Some n \<Rightarrow> the_str n)) \<or>
     sublist (lower q)
       (lower (case field r ''description'' of None \<Rightarrow> [] | Some d \<Rightarrow> the_str d)) \<or>
     sublist (lower q)
       (lower (space_joined
          (case field r ''tags'' of None \<Rightarrow> [] | Some ts \<Rightarrow> map the_str (the_list ts))))"

text \<open>A remote call has failed when the transport raised (connection, timeout, any other
  request error, a body that is not JSON), when the answer is an object whose \<open>success\<close> is
  missing or false, or when the answer is an empty body such as \<^verbatim>\<open>null\<close>. An answer that is
  a non-empty list, string or number is none of these: on it the client raises
  AttributeError.\<close>

fun remote_failure :: "reply \<Rightarrow> bool" where
  "remote_failure (Reply (JObj kvs)) =
     (\<not> truthy (case map_of kvs ''success'' of None \<Rightarrow> JNull | Some ok \<Rightarrow> ok))"
| "remote_failure (Reply response) = (\<not> truthy response)"
| "remote_failure failure = True"

text \<open>An entry of the ledger that has a \<open>name\<close>.\<close>

definition has_name :: "json \<Rightarrow> bool" where
  "has_name p \<longleftrightarrow> field p ''name'' \<noteq> None"

text \<open>An entry whose \<open>name\<close> is the string \<open>n\<close>.\<close>

definition named :: "string \<Rightarrow> json \<Rightarrow> bool" where
  "named n p \<longleftrightarrow> field p ''name'' = Some (JStr n)"

text \<open>The record after the three assignments of \<^verbatim>\<open>save_installed_package\<close>.\<close>

definition stamped :: "(string \<times> json) list \<Rightarrow> int \<Rightarrow> json" where
  "stamped kvs now =
     JObj (AList.update ''client_version'' (JStr dunder_version)
            (AList.update ''installed_by'' (JStr ''asmp'')
              (AList.update ''installed_at'' (JInt now) kvs)))"

text \<open>A package record on which the expressions that \<^verbatim>\<open>install_package_remote\<close> prints
  do not raise: it has a \<open>name\<close> and a \<open>version\<close>, and its \<open>dependencies\<close> are missing,
  empty or a list of strings.\<close>

definition wt_info :: "(string \<times> json) list \<Rightarrow> bool" where
  "wt_info kvs \<longleftrightarrow>
     map_of kvs ''name'' \<noteq> None \<and>
     map_of kvs ''version'' \<noteq> None \<and>
     (case map_of kvs ''dependencies'' of None \<Rightarrow> True | Some d \<Rightarrow> \<not> truthy d \<or> is_str_list d)"

text \<open>The key under which \<open>by_name\<close> files a record: its \<open>name\<close>, hashed.\<close>

definition name_key :: "json \<Rightarrow> py_error + pykey" where
  "name_key pkg = andthen (subscript pkg ''name'') hash_key"

text \<open>A record that has a hashable \<open>name\<close>.\<close>

definition has_key :: "json \<Rightarrow> bool" where
  "has_key pkg \<longleftrightarrow> (case name_key pkg of Inl e \<Rightarrow> False | Inr k \<Rightarrow> True)"

text \<open>A name-keyed dict: keys are distinct and every record sits under its own key.\<close>

definition keyed :: "(pykey \<times> json) list \<Rightarrow> bool" where
  "keyed d \<longleftrightarrow> distinct (map fst d) \<and> list_all (\<lambda>kv. name_key (snd kv) = Inr (fst kv)) d"

text \<open>The object that \<open>update_local_cache\<close> dumps, after its three assignments.\<close>

definition cache_after :: "(string \<times> json) list \<Rightarrow> (pykey \<times> json) list \<Rightarrow> int \<Rightarrow> json" where
  "cache_after local_data local_packages now =
     JObj (AList.update ''client_version'' (JStr dunder_version)
            (AList.update ''last_updated'' (JInt now)
              (AList.update ''packages'' (JArr (map snd local_packages)) local_data)))"

subsection \<open>Example states\<close>

definition no_files :: fs where
  "no_files = \<lparr>files = (\<lambda>p. None), written = []\<rparr>"

definition helper_record :: json where
  "helper_record = JObj [(''name'', JStr ''artutils''), (''tags'', JArr [JStr ''helpers''])]"

definition helper_cache :: fs where
  "helper_cache =
     \<lparr>files = (\<lambda>p. None)(PackagesFile \<mapsto> Json (JObj [(''packages'', JArr [helper_record])])),
      written = []\<rparr>"

definition artutils_record :: json where
  "artutils_record =
     JObj [(''name'', JStr ''artutils''),
           (''description'', JStr ''Utility functions for ArtTeam projects''),
           (''tags'', JArr [JStr ''utilities'', JStr ''helpers'', JStr ''tools''])]"

definition cafe_record :: json where
  "cafe_record =
     JObj [(''name'', JStr (''caf'' @ [CHR 0xE9])),
           (''tags'', JArr [JStr ''bar'', JStr ''noir''])]"

definition launcher_record :: json where
  "launcher_record = JObj [(''name'', JStr ''launcher''), (''tags'', JArr [JStr ''gui''])]"

definition tagged_cache :: fs where
  "tagged_cache =
     \<lparr>files = (\<lambda>p. None)(PackagesFile \<mapsto>
        Json (JObj [(''packages'', JArr [artutils_record, cafe_record, launcher_record])])),
      written = []\<rparr>"

definition broken_files :: fs where
  "broken_files = \<lparr>files = (\<lambda>p. Some NotJson), written = []\<rparr>"

definition custom_config :: fs where
  "custom_config =
     \<lparr>files = (\<lambda>p. None)(ConfigFile \<mapsto>
         Json (JObj [(''server_url'', JStr ''https://api.artstudia.com''),
                     (''auto_update'', JBool True),
                     (''timeout'', JInt 60),
                     (''client_version'', JStr ''0.1.0'')])),
      written = []\<rparr>"

definition foo_v1 :: "(string \<times> json) list" where
  "foo_v1 = [(''name'', JStr ''foo''), (''version'', JStr ''1.0'')]"

definition foo_v2 :: "(string \<times> json) list" where
  "foo_v2 = [(''name'', JStr ''foo''), (''version'', JStr ''2.0'')]"

definition bar_entry :: json where
  "bar_entry = JObj [(''name'', JStr ''bar''), (''version'', JStr ''0.3'')]"

definition foo_bar_ledger :: fs where
  "foo_bar_ledger =
     \<lparr>files = (\<lambda>p. None)(InstalledFile \<mapsto> Json (JArr [JObj foo_v1, bar_entry])),
      written = []\<rparr>"

text \<open>Three registries: one that cannot be reached, one that answers the info request
  only, and one that answers both requests.\<close>

definition offline :: "post_call \<Rightarrow> reply" where
  "offline c = ConnectionError"

definition info_reply :: reply where
  "info_reply = Reply (JObj [(''success'', JBool True), (''package'', JObj foo_v1)])"

definition info_only :: "post_call \<Rightarrow> reply" where
  "info_only c = (if endpoint c = ''/api/packages/info'' then info_reply else Timeout)"

definition online :: "post_call \<Rightarrow> reply" where
  "online c =
     (if endpoint c = ''/api/packages/info'' then info_reply
      else Reply (JObj [(''success'', JBool True), (''download_url'', JStr ''https://cdn/foo'')]))"

definition x_v1 :: json where
  "x_v1 = JObj [(''name'', JStr ''x''), (''version'', JStr ''1.0.0'')]"

definition x_v2 :: json where
  "x_v2 = JObj [(''name'', JStr ''x''), (''version'', JStr ''2.0.0'')]"

definition xy_cache :: fs where
  "xy_cache =
     \<lparr>files = (\<lambda>p. None)(PackagesFile \<mapsto>
        Json (JObj [(''packages'', JArr [x_v1, helper_record]), (''last_updated'', JInt 5)])),
      written = []\<rparr>"

section \<open>Properties\<close>

subsection \<open>Local search\<close>

lemma is_strE: "is_str v \<Longrightarrow> (\<And>s. v = JStr s \<Longrightarrow> P) \<Longrightarrow> P"
  by (cases v) auto

lemma is_str_listE: "is_str_list v \<Longrightarrow> (\<And>ts. v = JArr ts \<Longrightarrow> list_all is_str ts \<Longrightarrow> P) \<Longrightarrow> P"
  by (cases v) auto

lemma strs_all_str: "list_all is_str ts \<Longrightarrow> strs ts = Inr (map the_str ts)"
  by (induction ts rule: strs.induct) (auto simp: andthen_def)

lemma join_str_list:
  "is_str_list v \<Longrightarrow> join sep v = Inr (intercalate sep (map the_str (the_list v)))"
  by (erule is_str_listE) (simp add: join_def andthen_def strs_all_str)

lemma intercalate_space_joined: "intercalate '' '' ss = space_joined ss"
  by (induction "'' ''" ss rule: intercalate.induct) simp_all

lemma join_empty: "join sep (JArr []) = Inr []"
  by (simp add: join_def andthen_def)

lemma pkg_matches_wt:
  assumes "wt_record r"
  shows "pkg_matches q r = Inr (spec_match q r)"
proof (cases r)
  case (JObj kvs)
  from assms JObj obtain n where n: "map_of kvs ''name'' = Some (JStr n)"
    by (auto simp: wt_record_def split: option.splits elim: is_strE)
  from assms JObj
  have d: "str_lower (case map_of kvs ''description'' of None \<Rightarrow> JStr [] | Some v \<Rightarrow> v)
      = Inr (lower (case map_of kvs ''description'' of None \<Rightarrow> [] | Some d \<Rightarrow> the_str d))"
    by (auto simp: wt_record_def lower_def split: option.splits elim: is_strE)
  from assms JObj
  have t: "join '' '' (case map_of kvs ''tags'' of None \<Rightarrow> JArr [] | Some v \<Rightarrow> v)
      = Inr (space_joined
               (case map_of kvs ''tags'' of None \<Rightarrow> [] | Some ts \<Rightarrow> map the_str (the_list ts)))"
    by (auto simp: wt_record_def join_empty join_str_list intercalate_space_joined
        split: option.splits)
  show ?thesis
    unfolding JObj pkg_matches_def spec_match_def
    by (simp add: andthen_def n d t)
qed (use assms in \<open>simp_all add: wt_record_def\<close>)

lemma found_packages_wt:
  "list_all wt_record pkgs \<Longrightarrow> found_packages q pkgs = Inr (filter (spec_match q) pkgs)"
  by (induction pkgs) (auto simp: andthen_def pkg_matches_wt)

text \<open>
  Claim C8. On a cache file that holds an object whose \<open>packages\<close> is a list of well-typed
  records, \<open>search_local\<close> returns exactly the records that match in the sense of the
  specification (lowercased query a substring of the lowercased name, description or
  space-joined tags), in the order of the stored list.
\<close>

theorem search_local_filter:
  assumes "files s PackagesFile = Some (Json (JObj local_data))"
    and "map_of local_data ''packages'' = Some (JArr pkgs)"
    and "list_all wt_record pkgs"
  shows "search_local s q = filter (spec_match q) pkgs"
  using assms
  by (simp add: search_local_def search_local_body_def load_def andthen_def found_packages_wt)

theorem search_local_filter_witness:
  "files tagged_cache PackagesFile =
     Some (Json (JObj [(''packages'', JArr [artutils_record, cafe_record, launcher_record])])) \<and>
   map_of [(''packages'', JArr [artutils_record, cafe_record, launcher_record])] ''packages'' =
     Some (JArr [artutils_record, cafe_record, launcher_record]) \<and>
   list_all wt_record [artutils_record, cafe_record, launcher_record] \<and>
   search_local tagged_cache ''UTIL'' = [artutils_record] \<and>
   search_local tagged_cache ''FUNCTIONS'' = [artutils_record] \<and>
   search_local tagged_cache ''ers TOO'' = [artutils_record] \<and>
   search_local tagged_cache ''erstoo'' = [] \<and>
   search_local tagged_cache (''CAF'' @ [CHR 0xC9]) = [cafe_record] \<and>
   search_local tagged_cache ''A'' = [artutils_record, cafe_record, launcher_record] \<and>
   search_local tagged_cache ''R N'' = [cafe_record] \<and>
   search_local tagged_cache ''zzz'' = [] \<and>
   pkg_matches ''ers TOO'' artutils_record = Inr True \<and>
   pkg_matches ''erstoo'' artutils_record = Inr False \<and>
   pkg_matches (''CAF'' @ [CHR 0xC9]) cafe_record = Inr True"
proof -
  let ?pkgs = "[artutils_record, cafe_record, launcher_record]"
  have f: "files tagged_cache PackagesFile = Some (Json (JObj [(''packages'', JArr ?pkgs)]))"
    by (simp add: tagged_cache_def)
  have m: "map_of [(''packages'', JArr ?pkgs)] ''packages'' = Some (JArr ?pkgs)"
    by simp
  have w: "list_all wt_record ?pkgs"
    by (simp add: wt_record_def artutils_record_def cafe_record_def launcher_record_def)
  note ev = spec_match_def artutils_record_def cafe_record_def launcher_record_def lower_def
    sublist_code
  have 1: "filter (spec_match ''UTIL'') ?pkgs = [artutils_record]"
    by (simp add: ev)
  have 2: "filter (spec_match ''FUNCTIONS'') ?pkgs = [artutils_record]"
    by (simp add: ev)
  have 3: "filter (spec_match ''ers TOO'') ?pkgs = [artutils_record]"
    by (simp add: ev)
  have 4: "filter (spec_match ''erstoo'') ?pkgs = []"
    by (simp add: ev)
  have 5: "filter (spec_match (''CAF'' @ [CHR 0xC9])) ?pkgs = [cafe_record]"
    by (simp add: ev)
  have 6: "filter (spec_match ''A'') ?pkgs = ?pkgs"
    by (simp add: ev)
  have 7: "filter (spec_match ''R N'') ?pkgs = [cafe_record]"
    by (simp add: ev)
  have 8: "filter (spec_match ''zzz'') ?pkgs = []"
    by (simp add: ev)
  note run = pkg_matches_def andthen_def join_def artutils_record_def cafe_record_def lower_def
    sublist_code
  have 9: "pkg_matches ''ers TOO'' artutils_record = Inr True"
    by (simp add: run)
  have 10: "pkg_matches ''erstoo'' artutils_record = Inr False"
    by (simp add: run)
  have 11: "pkg_matches (''CAF'' @ [CHR 0xC9]) cafe_record = Inr True"
    by (simp add: run)
  show ?thesis
    using search_local_filter [OF f m w] f m w 1 2 3 4 5 6 7 8 9 10 11 by simp
qed

subsection \<open>Reading the ledger\<close>

text \<open>
  Claim C10. Reading the installed ledger tolerates only a missing file: then the result is
  the empty list, while a ledger file that does not decode raises JSONDecodeError to the
  caller. \<open>search_local\<close> on a cache file that does not decode returns the empty list.
\<close>

theorem get_installed_packages_errors:
  "(files s InstalledFile = None \<longrightarrow> get_installed_packages s = Inr (JArr [])) \<and>
   (files s InstalledFile = Some NotJson \<longrightarrow> get_installed_packages s = Inl JSONDecodeError) \<and>
   (files s PackagesFile = Some NotJson \<longrightarrow> search_local s q = [])"
  by (simp add: get_installed_packages_def load_def search_local_def search_local_body_def
      andthen_def)

theorem get_installed_packages_errors_witness:
  "files no_files InstalledFile = None \<and>
   get_installed_packages no_files = Inr (JArr []) \<and>
   files broken_files InstalledFile = Some NotJson \<and>
   get_installed_packages broken_files = Inl JSONDecodeError \<and>
   files broken_files PackagesFile = Some NotJson \<and>
   search_local broken_files ''art'' = []"
  using get_installed_packages_errors [of no_files "''art''"]
    get_installed_packages_errors [of broken_files "''art''"]
  by (simp add: no_files_def broken_files_def)

subsection \<open>Remote search\<close>

text \<open>
  Claim C1. If the remote search fails (the transport raises, the body is not JSON, or the
  answer is an object without a true \<open>success\<close>), \<open>search_remote\<close> returns what
  \<open>search_local\<close> returns on the current files, and the files and the trace of writes are
  as before the call.
\<close>

theorem search_remote_fallback:
  assumes "remote_failure (transport (session_post base_url ''/api/packages/search''
             (search_request_data query) t_request))"
  shows "search_remote transport base_url s query t_request t_cache =
           (Inr (JArr (search_local s query)), s)"
proof (cases "transport (session_post base_url ''/api/packages/search''
             (search_request_data query) t_request)")
  case (Reply response)
  with assms show ?thesis
    by (cases response)
       (simp_all add: search_remote_def make_request_def succeeded_def andthen_def Let_def)
qed (simp_all add: search_remote_def make_request_def succeeded_def Let_def)

theorem search_remote_fallback_witness:
  "remote_failure ((\<lambda>c. Timeout) (session_post ''https://api.artstudia.com''
      ''/api/packages/search'' (search_request_data ''util'') 5)) \<and>
   remote_failure ((\<lambda>c. Reply (JObj [(''success'', JBool False), (''error'', JStr ''down'')]))
      (session_post ''https://api.artstudia.com'' ''/api/packages/search''
         (search_request_data ''util'') 5)) \<and>
   search_remote (\<lambda>c. Timeout) ''https://api.artstudia.com'' helper_cache ''util'' 5 6 =
     (Inr (JArr (search_local helper_cache ''util'')), helper_cache) \<and>
   search_remote (\<lambda>c. Reply (JObj [(''success'', JBool False), (''error'', JStr ''down'')]))
      ''https://api.artstudia.com'' helper_cache ''util'' 5 6 =
     (Inr (JArr (search_local helper_cache ''util'')), helper_cache)"
  using search_remote_fallback [of "\<lambda>c. Timeout" "''https://api.artstudia.com''" "''util''" 5
      helper_cache 6]
    search_remote_fallback [of
      "\<lambda>c. Reply (JObj [(''success'', JBool False), (''error'', JStr ''down'')])"
      "''https://api.artstudia.com''" "''util''" 5 helper_cache 6]
  by simp

subsection \<open>First run and the request timeout\<close>

text \<open>
  Claim C9. With no cache file and no ledger file (and a configuration that is missing or
  holds an object), \<open>init_config\<close> returns normally and leaves a cache whose \<open>packages\<close> are
  exactly two records, the tool \<open>launcher_updater\<close> and the library \<open>artutils\<close>, and a
  ledger holding the empty list.
\<close>

theorem first_run:
  assumes "files s PackagesFile = None" and "files s InstalledFile = None"
    and "files s ConfigFile = None \<or> (\<exists>config. files s ConfigFile = Some (Json (JObj config)))"
  shows "\<exists>url s' tool library rest.
           init_config base_url s now = (Inr url, s') \<and>
           files s' PackagesFile =
             Some (Json (JObj ((''packages'', JArr [tool, library]) # rest))) \<and>
           field tool ''name'' = Some (JStr ''launcher_updater'') \<and>
           field tool ''type'' = Some (JStr ''tool'') \<and>
           field library ''name'' = Some (JStr ''artutils'') \<and>
           field library ''type'' = Some (JStr ''library'') \<and>
           files s' InstalledFile = Some (Json (JArr []))"
  using assms
  by (auto simp: init_config_def load_def andthen_def dump_def default_packages_def Let_def)

theorem first_run_witness:
  "files no_files PackagesFile = None \<and> files no_files InstalledFile = None \<and>
   files no_files ConfigFile = None \<and>
   (\<exists>url s' tool library rest.
      init_config ''https://api.artstudia.com'' no_files 1700000000 = (Inr url, s') \<and>
      files s' PackagesFile =
        Some (Json (JObj ((''packages'', JArr [tool, library]) # rest))) \<and>
      field tool ''name'' = Some (JStr ''launcher_updater'') \<and>
      field tool ''type'' = Some (JStr ''tool'') \<and>
      field library ''name'' = Some (JStr ''artutils'') \<and>
      field library ''type'' = Some (JStr ''library'') \<and>
      files s' InstalledFile = Some (Json (JArr [])))"
proof -
  have a: "files no_files PackagesFile = None" and b: "files no_files InstalledFile = None"
    and c: "files no_files ConfigFile = None"
    by (simp_all add: no_files_def)
  from c have c': "files no_files ConfigFile = None \<or>
      (\<exists>config. files no_files ConfigFile = Some (Json (JObj config)))" ..
  show ?thesis
    using first_run [OF a b c', of "''https://api.artstudia.com''" 1700000000] a b c by simp
qed

text \<open>
  Claim C4 as stated fails: with a stored configuration whose \<open>timeout\<close> is 60,
  \<open>init_config\<close> keeps the file, the configured timeout is 60, and the request is posted
  with timeout 30.
\<close>

theorem request_timeout_counterexample:
  "files (snd (init_config ''https://api.artstudia.com'' custom_config 0)) ConfigFile =
     files custom_config ConfigFile \<and>
   show_config_timeout (snd (init_config ''https://api.artstudia.com'' custom_config 0)) =
     Inr (JInt 60) \<and>
   timeout (session_post ''https://api.artstudia.com'' ''/api/status''
              [(''type_request'', JStr ''ping'')] 0) = 30 \<and>
   show_config_timeout (snd (init_config ''https://api.artstudia.com'' custom_config 0)) \<noteq>
     Inr (JInt (timeout (session_post ''https://api.artstudia.com'' ''/api/status''
                           [(''type_request'', JStr ''ping'')] 0)))"
  by (simp add: init_config_def custom_config_def load_def andthen_def show_config_timeout_def
      session_post_def dump_def Let_def)

text \<open>
  Claim C4, amended. Every request is posted with the fixed timeout 30, whatever the stored
  configuration says; 30 is also the \<open>timeout\<close> of every configuration the client itself
  writes, by \<open>update_server_url\<close> and by \<open>init_config\<close> when no configuration exists.
\<close>

theorem request_timeout_fixed:
  "timeout (session_post base_url ep data now) = 30 \<and>
   show_config_timeout (update_server_url s new_url) = Inr (JInt 30) \<and>
   (files s ConfigFile = None \<longrightarrow>
      show_config_timeout (snd (init_config base_url s now)) = Inr (JInt 30))"
  by (simp add: init_config_def load_def andthen_def show_config_timeout_def session_post_def
      dump_def Let_def update_server_url_def config_record_def)

theorem request_timeout_fixed_witness:
  "files no_files ConfigFile = None \<and>
   show_config_timeout (snd (init_config ''https://api.artstudia.com'' no_files 0)) =
     Inr (JInt 30) \<and>
   timeout (session_post ''https://api.artstudia.com'' ''/api/status''
              [(''type_request'', JStr ''ping'')] 0) = 30"
  using request_timeout_fixed [of "''https://api.artstudia.com''" "''/api/status''"
      "[(''type_request'', JStr ''ping'')]" 0 no_files "''x''"]
  by (simp add: no_files_def)

subsection \<open>The installed ledger\<close>

lemma py_eq_JStr: "py_eq a (JStr n) \<longleftrightarrow> a = JStr n"
  by (cases a) auto

lemma has_nameE:
  assumes "has_name p"
  obtains kvs a where "p = JObj kvs" and "map_of kvs ''name'' = Some a"
  using assms by (cases p) (auto simp: has_name_def)

lemma has_name_truthy: "has_name p \<Longrightarrow> truthy p"
  by (erule has_nameE) auto

lemma first_named_find:
  "list_all has_name entries \<Longrightarrow>
   first_named n entries = Inr (case find (named n) entries of None \<Rightarrow> JNull | Some p \<Rightarrow> p)"
proof (induction entries)
  case Nil
  then show ?case by simp
next
  case (Cons p ps)
  then have "has_name p" by simp
  then obtain kvs a where "p = JObj kvs" "map_of kvs ''name'' = Some a"
    by (rule has_nameE)
  with Cons show ?case
    by (simp add: andthen_def py_eq_JStr named_def)
qed

lemma without_name_filter:
  "list_all has_name entries \<Longrightarrow>
   without_name n entries = Inr (filter (\<lambda>p. \<not> named n p) entries)"
proof (induction entries)
  case Nil
  then show ?case by simp
next
  case (Cons p ps)
  then have "has_name p" by simp
  then obtain kvs a where "p = JObj kvs" "map_of kvs ''name'' = Some a"
    by (rule has_nameE)
  with Cons show ?case
    by (simp add: andthen_def py_eq_JStr named_def)
qed

lemma without_package_filter:
  "list_all has_name entries \<Longrightarrow> map_of kvs ''name'' = Some (JStr n) \<Longrightarrow>
   without_package (JObj kvs) entries = Inr (filter (\<lambda>p. \<not> named n p) entries)"
proof (induction entries)
  case Nil
  then show ?case by simp
next
  case (Cons p ps)
  then have "has_name p" by simp
  then obtain kvs' a where "p = JObj kvs'" "map_of kvs' ''name'' = Some a"
    by (rule has_nameE)
  with Cons show ?case
    by (simp add: andthen_def py_eq_JStr named_def)
qed

lemma find_named_truthy:
  "list_all has_name entries \<Longrightarrow>
   truthy (case find (named n) entries of None \<Rightarrow> JNull | Some p \<Rightarrow> p) \<longleftrightarrow>
     (\<exists>p\<in>set entries. named n p)"
  by (induction entries) (auto simp: has_name_truthy)

lemma installed_entries:
  assumes "files s InstalledFile = Some (Json (JArr entries)) \<or>
           files s InstalledFile = None \<and> entries = []"
  shows "get_installed_packages s = Inr (JArr entries)"
  using assms by (auto simp: get_installed_packages_def load_def)

lemma stamped_fields:
  "field (stamped kvs now) ''installed_at'' = Some (JInt now)"
  "field (stamped kvs now) ''installed_by'' = Some (JStr ''asmp'')"
  "field (stamped kvs now) ''client_version'' = Some (JStr dunder_version)"
  "field (stamped kvs now) ''name'' = map_of kvs ''name''"
  "field (stamped kvs now) ''version'' = map_of kvs ''version''"
  by (simp_all add: stamped_def update_conv')

lemma save_installed_package_eq:
  assumes "files s InstalledFile = Some (Json (JArr entries)) \<or>
           files s InstalledFile = None \<and> entries = []"
    and "list_all has_name entries"
    and "map_of kvs ''name'' = Some (JStr n)"
  shows "save_installed_package s (JObj kvs) now =
           (Inr (stamped kvs now),
            dump InstalledFile (JArr (filter (\<lambda>p. \<not> named n p) entries @ [stamped kvs now])) s)"
  using assms(2,3)
  by (simp add: save_installed_package_def installed_entries [OF assms(1)] andthen_def
      without_package_filter stamped_def)

text \<open>
  Claim C6 as stated fails: the \<^verbatim>\<open>uninstall\<close> branch returns neither true nor false. On
  a ledger that holds \<open>foo\<close> and \<open>bar\<close> it returns \<^verbatim>\<open>None\<close> for the installed \<open>foo\<close>
  and for the unknown \<open>nope\<close> alike; the outcome is told by the printed line only.
\<close>

theorem uninstall_returns_counterexample:
  "fst (uninstall foo_bar_ledger ''foo'') = Inr JNull \<and>
   fst (uninstall foo_bar_ledger ''nope'') = Inr JNull \<and>
   fst (uninstall foo_bar_ledger ''foo'') \<noteq> Inr (JBool True) \<and>
   fst (uninstall foo_bar_ledger ''nope'') \<noteq> Inr (JBool False) \<and>
   fst (snd (uninstall foo_bar_ledger ''foo'')) = [Removed ''foo''] \<and>
   fst (snd (uninstall foo_bar_ledger ''nope'')) = [NotInstalled ''nope'']"
  by (simp add: uninstall_def get_installed_packages_def load_def foo_bar_ledger_def andthen_def
      foo_v1_def bar_entry_def)

text \<open>
  Claim C6, amended. On a ledger that is missing or holds a list of entries with names,
  \<open>uninstall\<close> returns \<^verbatim>\<open>None\<close>. When an entry has the name it prints the removal line
  and persists the filtered list: afterwards the ledger file holds the old entries without
  those of that name, the other files are as before, and the trace has one more write, to
  the ledger file. When no entry has the name it prints the not-installed line, and the
  files and the trace of writes are as before the call.
\<close>

theorem uninstall_ledger:
  assumes "files s InstalledFile = Some (Json (JArr entries)) \<or>
           files s InstalledFile = None \<and> entries = []"
    and "list_all has_name entries"
  shows "fst (uninstall s n) = Inr JNull \<and>
         ((\<exists>p\<in>set entries. named n p) \<longrightarrow>
            fst (snd (uninstall s n)) = [Removed n] \<and>
            files (snd (snd (uninstall s n))) =
              (files s)(InstalledFile \<mapsto> Json (JArr (filter (\<lambda>p. \<not> named n p) entries))) \<and>
            written (snd (snd (uninstall s n))) = written s @ [InstalledFile]) \<and>
         (\<not> (\<exists>p\<in>set entries. named n p) \<longrightarrow>
            snd (uninstall s n) = ([NotInstalled n], s))"
  using assms(2) find_named_truthy [OF assms(2), of n]
  by (simp add: uninstall_def installed_entries [OF assms(1)] andthen_def first_named_find
      without_name_filter dump_def)

theorem uninstall_ledger_witness:
  "files foo_bar_ledger InstalledFile = Some (Json (JArr [JObj foo_v1, bar_entry])) \<and>
   list_all has_name [JObj foo_v1, bar_entry] \<and>
   (\<exists>p\<in>set [JObj foo_v1, bar_entry]. named ''foo'' p) \<and>
   \<not> (\<exists>p\<in>set [JObj foo_v1, bar_entry]. named ''nope'' p) \<and>
   fst (uninstall foo_bar_ledger ''foo'') = Inr JNull \<and>
   fst (snd (uninstall foo_bar_ledger ''foo'')) = [Removed ''foo''] \<and>
   files (snd (snd (uninstall foo_bar_ledger ''foo''))) InstalledFile =
     Some (Json (JArr [bar_entry])) \<and>
   files (snd (snd (uninstall foo_bar_ledger ''foo''))) PackagesFile = None \<and>
   files (snd (snd (uninstall foo_bar_ledger ''foo''))) ConfigFile = None \<and>
   written (snd (snd (uninstall foo_bar_ledger ''foo''))) = [InstalledFile] \<and>
   uninstall foo_bar_ledger ''nope'' = (Inr JNull, [NotInstalled ''nope''], foo_bar_ledger)"
proof -
  have a: "files foo_bar_ledger InstalledFile = Some (Json (JArr [JObj foo_v1, bar_entry])) \<or>
           files foo_bar_ledger InstalledFile = None \<and> [JObj foo_v1, bar_entry] = []"
    by (simp add: foo_bar_ledger_def)
  have b: "list_all has_name [JObj foo_v1, bar_entry]"
    by (simp add: has_name_def foo_v1_def bar_entry_def)
  have c: "\<exists>p\<in>set [JObj foo_v1, bar_entry]. named ''foo'' p"
    by (simp add: named_def foo_v1_def)
  have d: "\<not> (\<exists>p\<in>set [JObj foo_v1, bar_entry]. named ''nope'' p)"
    by (simp add: named_def foo_v1_def bar_entry_def)
  have e: "filter (\<lambda>p. \<not> named ''foo'' p) [JObj foo_v1, bar_entry] = [bar_entry]"
    by (simp add: named_def foo_v1_def bar_entry_def)
  have g: "files foo_bar_ledger PackagesFile = None" "files foo_bar_ledger ConfigFile = None"
    "written foo_bar_ledger = []"
    by (simp_all add: foo_bar_ledger_def)
  note found = uninstall_ledger [OF a b, of "''foo''"]
  note missing = uninstall_ledger [OF a b, of "''nope''"]
  have ret: "fst (uninstall foo_bar_ledger ''foo'') = Inr JNull"
    using found by (rule conjunct1)
  have "fst (snd (uninstall foo_bar_ledger ''foo'')) = [Removed ''foo''] \<and>
        files (snd (snd (uninstall foo_bar_ledger ''foo''))) =
          (files foo_bar_ledger)(InstalledFile \<mapsto>
             Json (JArr (filter (\<lambda>p. \<not> named ''foo'' p) [JObj foo_v1, bar_entry]))) \<and>
        written (snd (snd (uninstall foo_bar_ledger ''foo''))) =
          written foo_bar_ledger @ [InstalledFile]"
    using found [THEN conjunct2, THEN conjunct1] c by (rule mp)
  then have msg: "fst (snd (uninstall foo_bar_ledger ''foo'')) = [Removed ''foo'']"
    and fls: "files (snd (snd (uninstall foo_bar_ledger ''foo''))) =
          (files foo_bar_ledger)(InstalledFile \<mapsto> Json (JArr [bar_entry]))"
    and wr: "written (snd (snd (uninstall foo_bar_ledger ''foo''))) = [InstalledFile]"
    unfolding e by (simp_all add: g)
  have foo: "files (snd (snd (uninstall foo_bar_ledger ''foo''))) InstalledFile =
       Some (Json (JArr [bar_entry]))"
    "files (snd (snd (uninstall foo_bar_ledger ''foo''))) PackagesFile = None"
    "files (snd (snd (uninstall foo_bar_ledger ''foo''))) ConfigFile = None"
    unfolding fls by (simp_all add: g)
  have "snd (uninstall foo_bar_ledger ''nope'') = ([NotInstalled ''nope''], foo_bar_ledger)"
    using missing [THEN conjunct2, THEN conjunct2] d by (rule mp)
  moreover have "fst (uninstall foo_bar_ledger ''nope'') = Inr JNull"
    using missing by (rule conjunct1)
  ultimately have nope: "uninstall foo_bar_ledger ''nope'' =
      (Inr JNull, [NotInstalled ''nope''], foo_bar_ledger)"
    by (simp add: prod_eq_iff)
  have a': "files foo_bar_ledger InstalledFile = Some (Json (JArr [JObj foo_v1, bar_entry]))"
    by (simp add: foo_bar_ledger_def)
  from a' b c d ret msg foo wr nope show ?thesis
    by (intro conjI)
qed

text \<open>
  Claim C5. On a ledger that is missing or holds a list of entries with names,
  \<open>save_installed_package\<close> of a record named \<open>n\<close> writes the old entries without those named
  \<open>n\<close>, followed by the record stamped with \<open>installed_at\<close> (the time of the call),
  \<open>installed_by\<close> (\<open>asmp\<close>) and \<open>client_version\<close>. After a second record of the same name is
  saved, the ledger has exactly one entry named \<open>n\<close>: the second record, stamped, with the
  second record's version.
\<close>

theorem save_installed_package_replaces:
  assumes "files s InstalledFile = Some (Json (JArr entries)) \<or>
           files s InstalledFile = None \<and> entries = []"
    and "list_all has_name entries"
    and "map_of kvs ''name'' = Some (JStr n)"
    and "map_of kvs' ''name'' = Some (JStr n)"
  shows "save_installed_package s (JObj kvs) now =
           (Inr (stamped kvs now),
            dump InstalledFile
              (JArr (filter (\<lambda>p. \<not> named n p) entries @ [stamped kvs now])) s) \<and>
         field (stamped kvs now) ''installed_at'' = Some (JInt now) \<and>
         field (stamped kvs now) ''installed_by'' = Some (JStr ''asmp'') \<and>
         field (stamped kvs now) ''client_version'' = Some (JStr dunder_version) \<and>
         (\<exists>es. files (snd (save_installed_package (snd (save_installed_package s (JObj kvs) now))
                        (JObj kvs') later)) InstalledFile = Some (Json (JArr es)) \<and>
               filter (named n) es = [stamped kvs' later] \<and>
               field (stamped kvs' later) ''version'' = map_of kvs' ''version'')"
proof -
  let ?es1 = "filter (\<lambda>p. \<not> named n p) entries @ [stamped kvs now]"
  let ?s1 = "dump InstalledFile (JArr ?es1) s"
  have first: "save_installed_package s (JObj kvs) now = (Inr (stamped kvs now), ?s1)"
    by (rule save_installed_package_eq [OF assms(1,2,3)])
  have n1: "named n (stamped kvs now)" and n2: "named n (stamped kvs' later)"
    using assms(3,4) by (simp_all add: named_def stamped_fields)
  have led: "files ?s1 InstalledFile = Some (Json (JArr ?es1)) \<or>
             files ?s1 InstalledFile = None \<and> ?es1 = []"
    by (simp add: dump_def)
  have hn: "list_all has_name ?es1"
    using assms(2,3) by (simp add: list_all_iff has_name_def stamped_fields)
  have second: "save_installed_package ?s1 (JObj kvs') later =
      (Inr (stamped kvs' later),
       dump InstalledFile (JArr (filter (\<lambda>p. \<not> named n p) ?es1 @ [stamped kvs' later])) ?s1)"
    by (rule save_installed_package_eq [OF led hn assms(4)])
  have "filter (named n) (filter (\<lambda>p. \<not> named n p) ?es1 @ [stamped kvs' later]) =
          [stamped kvs' later]"
    using n1 n2 by (simp add: filter_empty_conv)
  then show ?thesis
    using first second by (simp add: stamped_fields dump_def)
qed

theorem save_installed_package_replaces_witness:
  "(files no_files InstalledFile = None \<and> ([]::json list) = []) \<and>
   list_all has_name [] \<and>
   map_of foo_v1 ''name'' = Some (JStr ''foo'') \<and>
   map_of foo_v2 ''name'' = Some (JStr ''foo'') \<and>
   files (snd (save_installed_package (snd (save_installed_package no_files (JObj foo_v1) 100))
                 (JObj foo_v2) 200)) InstalledFile =
     Some (Json (JArr [JObj [(''name'', JStr ''foo''), (''version'', JStr ''2.0''),
                             (''installed_at'', JInt 200), (''installed_by'', JStr ''asmp''),
                             (''client_version'', JStr ''0.1.0'')]]))"
proof -
  have a: "files no_files InstalledFile = Some (Json (JArr [])) \<or>
           files no_files InstalledFile = None \<and> ([]::json list) = []"
    by (simp add: no_files_def)
  have b: "list_all has_name []" by simp
  have c: "map_of foo_v1 ''name'' = Some (JStr ''foo'')" by (simp add: foo_v1_def)
  have d: "map_of foo_v2 ''name'' = Some (JStr ''foo'')" by (simp add: foo_v2_def)
  from save_installed_package_replaces [OF a b c d, of 100 200]
  obtain es where
    "files (snd (save_installed_package (snd (save_installed_package no_files (JObj foo_v1) 100))
                   (JObj foo_v2) 200)) InstalledFile = Some (Json (JArr es))"
    and "filter (named ''foo'') es = [stamped foo_v2 200]"
    by blast
  then have "files (snd (save_installed_package
                 (snd (save_installed_package no_files (JObj foo_v1) 100))
                 (JObj foo_v2) 200)) InstalledFile =
     Some (Json (JArr [JObj [(''name'', JStr ''foo''), (''version'', JStr ''2.0''),
                             (''installed_at'', JInt 200), (''installed_by'', JStr ''asmp''),
                             (''client_version'', JStr ''0.1.0'')]]))"
    by (simp add: save_installed_package_def get_installed_packages_def load_def no_files_def
        andthen_def dump_def foo_v1_def foo_v2_def dunder_version_def)
  then show ?thesis using c d by (simp add: no_files_def)
qed

subsection \<open>Installing\<close>

lemma andthen_Inr: "andthen m f = Inr y \<Longrightarrow> \<exists>x. m = Inr x \<and> f x = Inr y"
  by (cases m) (simp_all add: andthen_def)

lemma remote_failure_succeeded:
  assumes "remote_failure (transport (session_post base_url ep data now))"
  shows "succeeded (make_request transport base_url ep data now) = Inr False"
proof (cases "transport (session_post base_url ep data now)")
  case (Reply response)
  with assms show ?thesis
    by (cases response) (simp_all add: make_request_def succeeded_def andthen_def)
qed (simp_all add: make_request_def succeeded_def)

lemma save_error_unchanged:
  "save_installed_package s package_info now = (Inl e, s') \<Longrightarrow> s' = s"
  by (auto simp: save_installed_package_def split: sum.splits prod.splits)

lemma save_ok_stamped:
  "save_installed_package s package_info now = (Inr stamped_info, s') \<Longrightarrow>
   \<exists>kvs. package_info = JObj kvs \<and> stamped_info = stamped kvs now"
  by (cases package_info)
     (auto simp: save_installed_package_def andthen_def stamped_def split: sum.splits prod.splits)

lemma download_and_install_False:
  assumes "subscript package_info ''name'' = Inr a"
    and "subscript package_info ''version'' = Inr b"
    and "download_and_install s package_info download_url install_script now = (False, s')"
  shows "s' = s"
proof (cases "andthen (dict_get package_info ''dependencies'' (JArr [])) (\<lambda>dependencies.
             if truthy dependencies then py_iter dependencies else Inr [])")
  case (Inl e)
  with assms(3) show ?thesis by (simp add: download_and_install_def)
next
  case (Inr deps)
  obtain r s1 where sv: "save_installed_package s package_info now = (r, s1)"
    by (cases "save_installed_package s package_info now")
  show ?thesis
  proof (cases r)
    case (Inl e)
    with sv have "s1 = s" by (simp add: save_error_unchanged)
    with assms(3) Inr sv Inl show ?thesis by (simp add: download_and_install_def)
  next
    case (Inr stamped_info)
    with sv obtain kvs where k: "package_info = JObj kvs" "stamped_info = stamped kvs now"
      by (auto dest: save_ok_stamped)
    from assms(1,2) k have "subscript stamped_info ''name'' = Inr a"
      "subscript stamped_info ''version'' = Inr b"
      by (auto simp: stamped_def update_conv' split: option.splits)
    with assms(3) \<open>andthen _ _ = Inr deps\<close> sv Inr show ?thesis
      by (simp add: download_and_install_def andthen_def)
  qed
qed

lemma install_not_True_unchanged:
  assumes "install_package_remote transport base_url s package_name version t1 t2 t3 = (r, s')"
    and "r \<noteq> Inr True"
  shows "s' = s"
proof (cases "get_package_info_remote transport base_url package_name version t1")
  case (Inl e)
  with assms show ?thesis by (simp add: install_package_remote_def)
next
  case info: (Inr package_info)
  show ?thesis
  proof (cases "truthy package_info")
    case False
    with assms info show ?thesis by (simp add: install_package_remote_def)
  next
    case True
    let ?prints = "andthen (subscript package_info ''name'') (\<lambda>n.
                  andthen (subscript package_info ''version'') (\<lambda>v.
                  andthen (dict_get package_info ''description'' JNull) (\<lambda>d.
                  andthen (dict_get package_info ''author'' JNull) (\<lambda>a.
                  andthen (dict_get package_info ''dependencies'' (JArr [])) (\<lambda>dependencies.
                  andthen (if truthy dependencies then join '', '' dependencies else Inr []) (\<lambda>j.
                    if truthy version then Inr version
                    else subscript package_info ''version''))))))"
    show ?thesis
    proof (cases ?prints)
      case (Inl e)
      with assms info True show ?thesis by (simp add: install_package_remote_def)
    next
      case (Inr resolved)
      then obtain a b where ab: "subscript package_info ''name'' = Inr a"
        "subscript package_info ''version'' = Inr b"
        by (auto dest!: andthen_Inr)
      let ?response = "make_request transport base_url ''/api/packages/download''
                         (download_request_data package_name resolved) t2"
      show ?thesis
      proof (cases "succeeded ?response")
        case (Inl e)
        with assms info True Inr show ?thesis by (simp add: install_package_remote_def Let_def)
      next
        case ok: (Inr ok)
        show ?thesis
        proof (cases ok)
          case False
          with assms info True Inr ok show ?thesis by (simp add: install_package_remote_def Let_def)
        next
          case yes: True
          show ?thesis
          proof (cases "andthen (dict_get ?response ''download_url'' JNull) (\<lambda>download_url.
                        andthen (dict_get ?response ''install_script'' JNull) (\<lambda>install_script.
                          Inr (download_url, install_script)))")
            case (Inl e)
            with assms info True Inr ok yes show ?thesis
              by (simp add: install_package_remote_def Let_def)
          next
            case urls: (Inr us)
            obtain u i where us: "us = (u, i)" by (cases us)
            obtain d s1 where di: "download_and_install s package_info u i t3 = (d, s1)"
              by (cases "download_and_install s package_info u i t3")
            from assms(1) info True Inr ok yes urls us di have "r = Inr d" "s' = s1"
              by (simp_all add: install_package_remote_def Let_def)
            with assms(2) have "d = False" by simp
            with di ab have "s1 = s" by (auto dest: download_and_install_False)
            with \<open>s' = s1\<close> show ?thesis by simp
          qed
        qed
      qed
    qed
  qed
qed

lemma install_info_failed:
  assumes "remote_failure (transport (session_post base_url ''/api/packages/info''
             (info_request_data package_name version) t1))"
  shows "install_package_remote transport base_url s package_name version t1 t2 t3 = (Inr False, s)"
  using assms remote_failure_succeeded [of transport base_url "''/api/packages/info''"
      "info_request_data package_name version" t1]
  by (simp add: install_package_remote_def get_package_info_remote_def andthen_def Let_def)

lemma prints_wt_info:
  assumes "wt_info kvs" and "map_of kvs ''version'' = Some pv"
  shows "andthen (subscript (JObj kvs) ''name'') (\<lambda>n.
         andthen (subscript (JObj kvs) ''version'') (\<lambda>v.
         andthen (dict_get (JObj kvs) ''description'' JNull) (\<lambda>d.
         andthen (dict_get (JObj kvs) ''author'' JNull) (\<lambda>a.
         andthen (dict_get (JObj kvs) ''dependencies'' (JArr [])) (\<lambda>dependencies.
         andthen (if truthy dependencies then join '', '' dependencies else Inr []) (\<lambda>j.
           if truthy version then Inr version
           else subscript (JObj kvs) ''version''))))))
         = Inr (if truthy version then version else pv)"
  using assms
  by (auto simp: wt_info_def andthen_def join_str_list split: option.splits)

lemma wt_info_truthy: "wt_info kvs \<Longrightarrow> truthy (JObj kvs)"
  by (auto simp: wt_info_def)

lemma install_download_failed:
  assumes "get_package_info_remote transport base_url package_name version t1 = Inr (JObj kvs)"
    and "wt_info kvs" and "map_of kvs ''version'' = Some pv"
    and "remote_failure (transport (session_post base_url ''/api/packages/download''
           (download_request_data package_name (if truthy version then version else pv)) t2))"
  shows "install_package_remote transport base_url s package_name version t1 t2 t3 = (Inr False, s)"
  using assms(4) wt_info_truthy [OF assms(2)]
    remote_failure_succeeded [of transport base_url "''/api/packages/download''"
      "download_request_data package_name (if truthy version then version else pv)" t2]
  by (simp add: install_package_remote_def assms(1) prints_wt_info [OF assms(2,3)] Let_def
      del: truthy.simps subscript.simps dict_get.simps)

lemma succeeded_True_obj: "succeeded response = Inr True \<Longrightarrow> \<exists>kvs. response = JObj kvs"
  by (cases response) (auto simp: succeeded_def andthen_def split: if_splits)

lemma deps_wt_info:
  "wt_info kvs \<Longrightarrow>
   \<exists>deps. andthen (dict_get (JObj kvs) ''dependencies'' (JArr [])) (\<lambda>dependencies.
             if truthy dependencies then py_iter dependencies else Inr []) = Inr deps"
  by (auto simp: wt_info_def andthen_def split: option.splits elim: is_str_listE)

lemma download_and_install_raises:
  assumes "wt_info kvs" and "fst (save_installed_package s (JObj kvs) now) = Inl e"
  shows "download_and_install s (JObj kvs) download_url install_script now = (False, s)"
proof -
  obtain s1 where sv: "save_installed_package s (JObj kvs) now = (Inl e, s1)"
    using assms(2) by (cases "save_installed_package s (JObj kvs) now") auto
  then have "s1 = s" by (rule save_error_unchanged)
  with sv deps_wt_info [OF assms(1)] show ?thesis
    by (auto simp: download_and_install_def simp del: dict_get.simps)
qed

lemma install_steps_raise:
  assumes "get_package_info_remote transport base_url package_name version t1 = Inr (JObj kvs)"
    and "wt_info kvs" and "map_of kvs ''version'' = Some pv"
    and "succeeded (make_request transport base_url ''/api/packages/download''
           (download_request_data package_name (if truthy version then version else pv)) t2)
         = Inr True"
    and "fst (save_installed_package s (JObj kvs) t3) = Inl e"
  shows "install_package_remote transport base_url s package_name version t1 t2 t3 = (Inr False, s)"
proof -
  from succeeded_True_obj [OF assms(4)] obtain resp where
    r: "make_request transport base_url ''/api/packages/download''
           (download_request_data package_name (if truthy version then version else pv)) t2
        = JObj resp" ..
  have urls: "\<exists>u i. andthen (dict_get (JObj resp) ''download_url'' JNull) (\<lambda>download_url.
                 andthen (dict_get (JObj resp) ''install_script'' JNull) (\<lambda>install_script.
                   Inr (download_url, install_script))) = Inr (u, i)"
    by (simp add: andthen_def)
  then obtain u i where ui: "andthen (dict_get (JObj resp) ''download_url'' JNull) (\<lambda>download_url.
                 andthen (dict_get (JObj resp) ''install_script'' JNull) (\<lambda>install_script.
                   Inr (download_url, install_script))) = Inr (u, i)"
    by blast
  show ?thesis
    using assms(4) wt_info_truthy [OF assms(2)]
    by (simp add: install_package_remote_def assms(1) prints_wt_info [OF assms(2,3)] Let_def r ui
        download_and_install_raises [OF assms(2,5)]
        del: truthy.simps subscript.simps dict_get.simps)
qed

text \<open>
  Claim C7. Whenever \<open>install_package_remote\<close> does not return \<open>True\<close> (it returns \<open>False\<close>
  or raises), the files and the trace of writes are as before the call. It returns \<open>False\<close>
  when the package-info request fails; when, for a found record whose printed fields do not
  raise, the download request fails; and when, both requests having succeeded,
  \<open>save_installed_package\<close> raises inside \<open>download_and_install\<close>.
\<close>

theorem install_failure:
  "(install_package_remote transport base_url s package_name version t1 t2 t3 = (r, s') \<and>
      r \<noteq> Inr True \<longrightarrow> s' = s) \<and>
   (remote_failure (transport (session_post base_url ''/api/packages/info''
        (info_request_data package_name version) t1)) \<longrightarrow>
      install_package_remote transport base_url s package_name version t1 t2 t3 = (Inr False, s)) \<and>
   (get_package_info_remote transport base_url package_name version t1 = Inr (JObj kvs) \<and>
      wt_info kvs \<and> map_of kvs ''version'' = Some pv \<and>
      remote_failure (transport (session_post base_url ''/api/packages/download''
        (download_request_data package_name (if truthy version then version else pv)) t2)) \<longrightarrow>
      install_package_remote transport base_url s package_name version t1 t2 t3 = (Inr False, s)) \<and>
   (get_package_info_remote transport base_url package_name version t1 = Inr (JObj kvs) \<and>
      wt_info kvs \<and> map_of kvs ''version'' = Some pv \<and>
      succeeded (make_request transport base_url ''/api/packages/download''
        (download_request_data package_name (if truthy version then version else pv)) t2)
        = Inr True \<and>
      fst (save_installed_package s (JObj kvs) t3) = Inl e \<longrightarrow>
      install_package_remote transport base_url s package_name version t1 t2 t3 = (Inr False, s))"
proof (intro conjI impI)
  assume "install_package_remote transport base_url s package_name version t1 t2 t3 = (r, s') \<and>
      r \<noteq> Inr True"
  then show "s' = s"
    using install_not_True_unchanged [of transport base_url s package_name version t1 t2 t3 r s']
    by simp
next
  assume "remote_failure (transport (session_post base_url ''/api/packages/info''
        (info_request_data package_name version) t1))"
  then show "install_package_remote transport base_url s package_name version t1 t2 t3 =
      (Inr False, s)"
    by (rule install_info_failed)
next
  assume "get_package_info_remote transport base_url package_name version t1 = Inr (JObj kvs) \<and>
      wt_info kvs \<and> map_of kvs ''version'' = Some pv \<and>
      remote_failure (transport (session_post base_url ''/api/packages/download''
        (download_request_data package_name (if truthy version then version else pv)) t2))"
  then show "install_package_remote transport base_url s package_name version t1 t2 t3 =
      (Inr False, s)"
    using install_download_failed [of transport base_url package_name version t1 kvs pv t2 s t3]
    by simp
next
  assume "get_package_info_remote transport base_url package_name version t1 = Inr (JObj kvs) \<and>
      wt_info kvs \<and> map_of kvs ''version'' = Some pv \<and>
      succeeded (make_request transport base_url ''/api/packages/download''
        (download_request_data package_name (if truthy version then version else pv)) t2)
        = Inr True \<and>
      fst (save_installed_package s (JObj kvs) t3) = Inl e"
  then show "install_package_remote transport base_url s package_name version t1 t2 t3 =
      (Inr False, s)"
    using install_steps_raise [of transport base_url package_name version t1 kvs pv t2 s t3 e]
    by simp
qed

lemma info_only_info:
  "get_package_info_remote info_only ''https://api.artstudia.com'' ''foo'' JNull 1 = Inr (JObj foo_v1)"
  by (simp add: get_package_info_remote_def make_request_def info_only_def session_post_def
      info_reply_def succeeded_def andthen_def Let_def)

lemma online_info:
  "get_package_info_remote online ''https://api.artstudia.com'' ''foo'' JNull 1 = Inr (JObj foo_v1)"
  by (simp add: get_package_info_remote_def make_request_def online_def session_post_def
      info_reply_def succeeded_def andthen_def Let_def)

lemma wt_info_foo: "wt_info foo_v1" "map_of foo_v1 ''version'' = Some (JStr ''1.0'')"
  by (simp_all add: wt_info_def foo_v1_def)

lemma info_only_download:
  "remote_failure (info_only (session_post ''https://api.artstudia.com'' ''/api/packages/download''
        (download_request_data ''foo'' (if truthy JNull then JNull else JStr ''1.0'')) 2))"
  by (simp add: info_only_def session_post_def Let_def)

lemma online_download:
  "succeeded (make_request online ''https://api.artstudia.com'' ''/api/packages/download''
        (download_request_data ''foo'' (if truthy JNull then JNull else JStr ''1.0'')) 2) = Inr True"
  by (simp add: online_def session_post_def make_request_def succeeded_def andthen_def Let_def)

lemma broken_save:
  "fst (save_installed_package broken_files (JObj foo_v1) 3) = Inl JSONDecodeError"
  by (simp add: save_installed_package_def get_installed_packages_def load_def broken_files_def
      andthen_def)

theorem install_failure_witness:
  "remote_failure (offline (session_post ''https://api.artstudia.com'' ''/api/packages/info''
        (info_request_data ''foo'' JNull) 1)) \<and>
   install_package_remote offline ''https://api.artstudia.com'' foo_bar_ledger ''foo'' JNull 1 2 3 =
     (Inr False, foo_bar_ledger) \<and>
   get_package_info_remote info_only ''https://api.artstudia.com'' ''foo'' JNull 1 = Inr (JObj foo_v1) \<and>
   wt_info foo_v1 \<and> map_of foo_v1 ''version'' = Some (JStr ''1.0'') \<and>
   remote_failure (info_only (session_post ''https://api.artstudia.com'' ''/api/packages/download''
        (download_request_data ''foo'' (if truthy JNull then JNull else JStr ''1.0'')) 2)) \<and>
   install_package_remote info_only ''https://api.artstudia.com'' foo_bar_ledger ''foo'' JNull 1 2 3 =
     (Inr False, foo_bar_ledger) \<and>
   get_package_info_remote online ''https://api.artstudia.com'' ''foo'' JNull 1 = Inr (JObj foo_v1) \<and>
   succeeded (make_request online ''https://api.artstudia.com'' ''/api/packages/download''
        (download_request_data ''foo'' (if truthy JNull then JNull else JStr ''1.0'')) 2) = Inr True \<and>
   fst (save_installed_package broken_files (JObj foo_v1) 3) = Inl JSONDecodeError \<and>
   install_package_remote online ''https://api.artstudia.com'' broken_files ''foo'' JNull 1 2 3 =
     (Inr False, broken_files) \<and>
   (Inr False :: py_error + bool) \<noteq> Inr True"
proof -
  have o: "remote_failure (offline (session_post ''https://api.artstudia.com''
      ''/api/packages/info'' (info_request_data ''foo'' JNull) 1))"
    by (simp add: offline_def)
  note a = install_failure [of offline "''https://api.artstudia.com''" foo_bar_ledger "''foo''"
      JNull 1 2 3]
  note b = install_failure [of info_only "''https://api.artstudia.com''" foo_bar_ledger "''foo''"
      JNull 1 2 3 _ _ foo_v1 "JStr ''1.0''"]
  note c = install_failure [of online "''https://api.artstudia.com''" broken_files "''foo''"
      JNull 1 2 3 "Inr False" broken_files foo_v1 "JStr ''1.0''" JSONDecodeError]
  show ?thesis
    using a b c o info_only_info online_info wt_info_foo info_only_download online_download
      broken_save
    by simp
qed

subsection \<open>Merging into the cache\<close>

lemma by_name_Cons:
  "by_name d (pkg # pkgs) = andthen (name_key pkg) (\<lambda>k. by_name (AList.update k pkg d) pkgs)"
  by (simp add: name_key_def andthen_def split: sum.splits)

lemma has_key_iff: "has_key p \<longleftrightarrow> (\<exists>k. name_key p = Inr k)"
  by (cases "name_key p") (simp_all add: has_key_def)

lemma by_name_total:
  "list_all has_key ps \<Longrightarrow> \<exists>d'. by_name d ps = Inr d'"
proof (induction ps arbitrary: d)
  case Nil
  then show ?case by simp
next
  case (Cons p ps)
  then obtain k where "name_key p = Inr k" by (auto simp: has_key_iff)
  with Cons show ?case by (simp add: by_name_Cons andthen_def del: by_name.simps(2))
qed

lemma by_name_has_key:
  "by_name d ps = Inr d' \<Longrightarrow> list_all has_key ps"
proof (induction ps arbitrary: d)
  case Nil
  then show ?case by simp
next
  case (Cons p ps)
  from Cons.prems obtain k where k: "name_key p = Inr k"
    and r: "by_name (AList.update k p d) ps = Inr d'"
    by (cases "name_key p") (simp_all add: by_name_Cons andthen_def del: by_name.simps(2))
  from Cons.IH [OF r] k show ?case by (simp add: has_key_iff)
qed

lemma set_update_subset: "set (AList.update k v al) \<subseteq> insert (k, v) (set al)"
  by (induction al) auto

lemma keyed_update:
  assumes "keyed d" and "name_key p = Inr k"
  shows "keyed (AList.update k p d)"
proof -
  have "list_all (\<lambda>kv. name_key (snd kv) = Inr (fst kv)) (AList.update k p d)"
    using assms set_update_subset [of k p d] by (auto simp: keyed_def list_all_iff)
  with assms(1) show ?thesis by (simp add: keyed_def distinct_update)
qed

lemma by_name_keyed:
  "by_name d ps = Inr d' \<Longrightarrow> keyed d \<Longrightarrow> keyed d'"
proof (induction ps arbitrary: d)
  case Nil
  then show ?case by simp
next
  case (Cons p ps)
  from Cons.prems(1) obtain k where k: "name_key p = Inr k"
    and r: "by_name (AList.update k p d) ps = Inr d'"
    by (cases "name_key p") (simp_all add: by_name_Cons andthen_def del: by_name.simps(2))
  from Cons.IH [OF r keyed_update [OF Cons.prems(2) k]] show ?case .
qed

lemma by_name_map_of:
  "by_name d ps = Inr d' \<Longrightarrow>
   map_of d' k =
     (if filter (\<lambda>p. name_key p = Inr k) ps = [] then map_of d k
      else Some (last (filter (\<lambda>p. name_key p = Inr k) ps)))"
proof (induction ps arbitrary: d)
  case Nil
  then show ?case by simp
next
  case (Cons p ps)
  from Cons.prems(1) obtain kp where kp: "name_key p = Inr kp"
    and r: "by_name (AList.update kp p d) ps = Inr d'"
    by (cases "name_key p") (simp_all add: by_name_Cons andthen_def del: by_name.simps(2))
  from Cons.IH [OF r] kp show ?case by (auto simp: update_conv')
qed

lemma by_name_keys_present:
  "by_name d ps = Inr d' \<Longrightarrow>
   (\<forall>p\<in>set ps. \<forall>k. name_key p = Inr k \<longrightarrow> k \<in> fst ` set d) \<Longrightarrow>
   map fst d' = map fst d"
proof (induction ps arbitrary: d)
  case Nil
  then show ?case by simp
next
  case (Cons p ps)
  from Cons.prems(1) obtain kp where kp: "name_key p = Inr kp"
    and r: "by_name (AList.update kp p d) ps = Inr d'"
    by (cases "name_key p") (simp_all add: by_name_Cons andthen_def del: by_name.simps(2))
  from Cons.prems(2) kp have in_d: "kp \<in> fst ` set d" by simp
  then have keys: "map fst (AList.update kp p d) = map fst d" by (simp add: update_keys)
  have "\<forall>q\<in>set ps. \<forall>k. name_key q = Inr k \<longrightarrow> k \<in> fst ` set (AList.update kp p d)"
    using Cons.prems(2) by (simp add: dom_update)
  from Cons.IH [OF r this] keys show ?case by simp
qed

lemma update_fresh: "k \<notin> fst ` set al \<Longrightarrow> AList.update k v al = al @ [(k, v)]"
  by (induction al) auto

lemma by_name_rebuild:
  "keyed (d0 @ d) \<Longrightarrow> by_name d0 (map snd d) = Inr (d0 @ d)"
proof (induction d arbitrary: d0)
  case Nil
  then show ?case by simp
next
  case (Cons kv d)
  obtain k v where kv: "kv = (k, v)" by (cases kv)
  from Cons.prems kv have nk: "name_key v = Inr k" and fresh: "k \<notin> fst ` set d0"
    by (auto simp: keyed_def)
  from Cons.prems kv have "keyed ((d0 @ [(k, v)]) @ d)" by simp
  from Cons.IH [OF this] nk fresh kv show ?case
    by (simp add: by_name_Cons andthen_def update_fresh del: by_name.simps(2))
qed

lemma alist_eqI:
  "map fst xs = map fst ys \<Longrightarrow> distinct (map fst xs) \<Longrightarrow> map_of xs = map_of ys \<Longrightarrow> xs = ys"
proof (induction xs arbitrary: ys)
  case Nil
  then show ?case by simp
next
  case (Cons x xs)
  from Cons.prems(1) obtain y ys' where ys: "ys = y # ys'" and fy: "fst y = fst x"
    and keys: "map fst xs = map fst ys'"
    by (cases ys) auto
  from Cons.prems(3) have "map_of (x # xs) (fst x) = map_of ys (fst x)"
    by (rule arg_cong [where f = "\<lambda>m. m (fst x)"])
  with ys fy have sy: "snd y = snd x" by simp
  with fy have xy: "y = x" by (simp add: prod_eq_iff)
  from Cons.prems(2) have fresh: "fst x \<notin> set (map fst xs)" and dist: "distinct (map fst xs)"
    by simp_all
  from fresh keys have fresh': "fst x \<notin> set (map fst ys')" by simp
  have "map_of xs = map_of ys'"
  proof
    fix j
    show "map_of xs j = map_of ys' j"
    proof (cases "j = fst x")
      case True
      with fresh fresh' show ?thesis by (simp add: map_of_eq_None_iff [THEN iffD2])
    next
      case False
      from Cons.prems(3) have "map_of (x # xs) j = map_of ys j"
        by (rule arg_cong [where f = "\<lambda>m. m j"])
      then have "map_of (x # xs) j = map_of (x # ys') j" by (simp add: ys xy)
      with False show ?thesis by (cases x) (simp split: if_splits)
    qed
  qed
  from Cons.IH [OF keys dist this] ys xy show ?case by simp
qed

lemma by_name_again:
  assumes "by_name d0 ps = Inr d1" and "keyed d0"
  shows "by_name d1 ps = Inr d1"
proof -
  from by_name_has_key [OF assms(1)] obtain d2 where d2: "by_name d1 ps = Inr d2"
    using by_name_total by blast
  have k1: "keyed d1" by (rule by_name_keyed [OF assms])
  have present: "\<forall>p\<in>set ps. \<forall>k. name_key p = Inr k \<longrightarrow> k \<in> fst ` set d1"
  proof (intro ballI allI impI)
    fix p k assume "p \<in> set ps" "name_key p = Inr k"
    then have "filter (\<lambda>p. name_key p = Inr k) ps \<noteq> []" by (auto simp: filter_empty_conv)
    with by_name_map_of [OF assms(1), of k] have "map_of d1 k \<noteq> None" by simp
    then show "k \<in> fst ` set d1" by (simp add: map_of_eq_None_iff)
  qed
  have keys: "map fst d2 = map fst d1" by (rule by_name_keys_present [OF d2 present])
  have "map_of d2 = map_of d1"
  proof
    fix k show "map_of d2 k = map_of d1 k"
      using by_name_map_of [OF d2, of k] by_name_map_of [OF assms(1), of k] by simp
  qed
  with keys k1 have "d2 = d1" by (intro alist_eqI) (simp_all add: keyed_def)
  with d2 show ?thesis by simp
qed

lemma update_commute_present:
  "k \<noteq> k' \<Longrightarrow> k \<in> fst ` set al \<Longrightarrow>
   AList.update k v (AList.update k' v' al) = AList.update k' v' (AList.update k v al)"
  by (induction al) auto

lemma load_Inr: "load p s = Inr v \<longleftrightarrow> files s p = Some (Json v)"
  by (auto simp: load_def split: option.splits content.splits)

lemma dict_get_Inr: "dict_get x k d = Inr v \<Longrightarrow> \<exists>kvs. x = JObj kvs"
  by (cases x) auto

lemma body_Inr:
  assumes "update_local_cache_body s packages now = Inr out"
  obtains local_data stored_pkgs d0 pkgs d1 where
    "files s PackagesFile = Some (Json (JObj local_data))"
    "py_iter (case map_of local_data ''packages'' of None \<Rightarrow> JArr [] | Some v \<Rightarrow> v) = Inr stored_pkgs"
    "by_name [] stored_pkgs = Inr d0"
    "py_iter packages = Inr pkgs"
    "by_name d0 pkgs = Inr d1"
    "out = cache_after local_data d1 now"
proof -
  from assms obtain x stored stored_pkgs d0 pkgs d1 y z where
    x: "load PackagesFile s = Inr x" and
    st: "dict_get x ''packages'' (JArr []) = Inr stored" and
    a: "py_iter stored = Inr stored_pkgs" and b: "by_name [] stored_pkgs = Inr d0" and
    c: "py_iter packages = Inr pkgs" and d: "by_name d0 pkgs = Inr d1" and
    e1: "set_item x ''packages'' (JArr (map snd d1)) = Inr y" and
    e2: "set_item y ''last_updated'' (JInt now) = Inr z" and
    e3: "set_item z ''client_version'' (JStr dunder_version) = Inr out"
    unfolding update_local_cache_body_def by (auto dest!: andthen_Inr)
  from st obtain local_data where ld: "x = JObj local_data" by (auto dest: dict_get_Inr)
  from e1 e2 e3 ld have "out = cache_after local_data d1 now"
    by (auto simp: cache_after_def)
  moreover from st ld
  have "stored = (case map_of local_data ''packages'' of None \<Rightarrow> JArr [] | Some v \<Rightarrow> v)"
    by simp
  ultimately show ?thesis using that x ld a b c d by (simp add: load_Inr)
qed

lemma body_eq:
  assumes "files s PackagesFile = Some (Json (JObj local_data))"
    "py_iter (case map_of local_data ''packages'' of None \<Rightarrow> JArr [] | Some v \<Rightarrow> v) = Inr stored_pkgs"
    "by_name [] stored_pkgs = Inr d0"
    "py_iter packages = Inr pkgs"
    "by_name d0 pkgs = Inr d1"
  shows "update_local_cache_body s packages now = Inr (cache_after local_data d1 now)"
  using assms
  by (simp add: update_local_cache_body_def load_def andthen_def cache_after_def)

lemma keyed_Nil: "keyed []"
  by (simp add: keyed_def)

lemma cache_after_again:
  "cache_after (case cache_after local_data d t1 of JObj kvs \<Rightarrow> kvs | _ \<Rightarrow> []) d t2 =
   cache_after local_data d t2"
proof -
  let ?X = "AList.update ''packages'' (JArr (map snd d)) local_data"
  let ?A = "AList.update ''client_version'' (JStr dunder_version)
              (AList.update ''last_updated'' (JInt t1) ?X)"
  have "map_of ?A ''packages'' = Some (JArr (map snd d))"
    by (simp add: update_conv')
  then have 1: "AList.update ''packages'' (JArr (map snd d)) ?A = ?A"
    by (rule update_triv)
  have "''last_updated'' \<in> fst ` set (AList.update ''last_updated'' (JInt t1) ?X)"
    by (simp add: dom_update)
  then have 2: "AList.update ''last_updated'' (JInt t2) ?A =
      AList.update ''client_version'' (JStr dunder_version)
        (AList.update ''last_updated'' (JInt t2) (AList.update ''last_updated'' (JInt t1) ?X))"
    by (intro update_commute_present) simp_all
  show ?thesis
    by (simp add: cache_after_def 1 2 del: AList.update.simps)
qed

lemma cache_after_packages:
  "py_iter (case map_of (case cache_after local_data d t of JObj kvs \<Rightarrow> kvs | _ \<Rightarrow> []) ''packages'' of
      None \<Rightarrow> JArr [] | Some v \<Rightarrow> v) = Inr (map snd d)"
  by (simp add: cache_after_def update_conv')

text \<open>
  Claim C2 as stated fails: a second merge of the same record at a later time leaves a cache
  file that differs from the one after the first merge, in \<open>last_updated\<close>.
\<close>

theorem merge_twice_counterexample:
  "files (update_local_cache xy_cache (JArr [x_v2]) 9) PackagesFile =
     Some (Json (JObj [(''packages'', JArr [x_v2, helper_record]), (''last_updated'', JInt 9),
                       (''client_version'', JStr ''0.1.0'')])) \<and>
   files (update_local_cache (update_local_cache xy_cache (JArr [x_v2]) 9) (JArr [x_v2]) 10)
      PackagesFile =
     Some (Json (JObj [(''packages'', JArr [x_v2, helper_record]), (''last_updated'', JInt 10),
                       (''client_version'', JStr ''0.1.0'')])) \<and>
   files (update_local_cache (update_local_cache xy_cache (JArr [x_v2]) 9) (JArr [x_v2]) 10)
      PackagesFile \<noteq>
   files (update_local_cache xy_cache (JArr [x_v2]) 9) PackagesFile"
  by (simp add: update_local_cache_def update_local_cache_body_def xy_cache_def load_def
        andthen_def dump_def x_v1_def x_v2_def helper_record_def dunder_version_def)

text \<open>
  Claim C2, amended. Merging the same records twice leaves the files as a single merge made
  at the time of the second one does: the package list and every other field are those of
  the first merge, and \<open>last_updated\<close> holds the time of the latest merge. In particular
  two merges stamped with the same time leave the cache identical to one.
\<close>

theorem merge_twice:
  "files (update_local_cache (update_local_cache s packages t1) packages t2) =
   files (update_local_cache s packages t2)"
proof (cases "update_local_cache_body s packages t1")
  case (Inl e)
  then have "update_local_cache s packages t1 = s" by (simp add: update_local_cache_def)
  then show ?thesis by simp
next
  case (Inr out)
  then obtain local_data stored_pkgs d0 pkgs d1 where
    f: "files s PackagesFile = Some (Json (JObj local_data))" and
    a: "py_iter (case map_of local_data ''packages'' of None \<Rightarrow> JArr [] | Some v \<Rightarrow> v) = Inr stored_pkgs" and
    b: "by_name [] stored_pkgs = Inr d0" and
    c: "py_iter packages = Inr pkgs" and
    d: "by_name d0 pkgs = Inr d1" and
    out: "out = cache_after local_data d1 t1"
    by (rule body_Inr)
  let ?s1 = "dump PackagesFile (cache_after local_data d1 t1) s"
  let ?ld1 = "case cache_after local_data d1 t1 of JObj kvs \<Rightarrow> kvs | _ \<Rightarrow> []"
  have s1: "update_local_cache s packages t1 = ?s1"
    using Inr out by (simp add: update_local_cache_def)
  have k0: "keyed d0" by (rule by_name_keyed [OF b keyed_Nil])
  have k1: "keyed d1" by (rule by_name_keyed [OF d k0])
  have f1: "files ?s1 PackagesFile = Some (Json (JObj ?ld1))"
    by (simp add: dump_def cache_after_def)
  have b1: "by_name [] (map snd d1) = Inr d1"
    using by_name_rebuild [of "[]" d1] k1 by simp
  have d1: "by_name d1 pkgs = Inr d1" by (rule by_name_again [OF d k0])
  have "update_local_cache_body ?s1 packages t2 = Inr (cache_after ?ld1 d1 t2)"
    by (rule body_eq [OF f1 cache_after_packages b1 c d1])
  then have second: "update_local_cache ?s1 packages t2 =
      dump PackagesFile (cache_after local_data d1 t2) ?s1"
    by (simp add: update_local_cache_def cache_after_again)
  have "update_local_cache_body s packages t2 = Inr (cache_after local_data d1 t2)"
    by (rule body_eq [OF f a b c d])
  then have single: "update_local_cache s packages t2 =
      dump PackagesFile (cache_after local_data d1 t2) s"
    by (simp add: update_local_cache_def)
  show ?thesis
    unfolding s1 second single by (simp add: dump_def)
qed

lemma keyed_no_key:
  "keyed d \<Longrightarrow> k \<notin> fst ` set d \<Longrightarrow> filter (\<lambda>q. name_key q = Inr k) (map snd d) = []"
  by (auto simp: keyed_def list_all_iff filter_empty_conv)

lemma keyed_filter:
  "keyed d \<Longrightarrow> map_of d k = Some v \<Longrightarrow> filter (\<lambda>q. name_key q = Inr k) (map snd d) = [v]"
proof (induction d)
  case Nil
  then show ?case by simp
next
  case (Cons kv d)
  obtain k' v' where kv: "kv = (k', v')" by (cases kv)
  from Cons.prems(1) kv have nk: "name_key v' = Inr k'" and fresh: "k' \<notin> fst ` set d"
    and kd: "keyed d"
    by (auto simp: keyed_def)
  show ?case
  proof (cases "k' = k")
    case True
    with Cons.prems(2) kv have "v' = v" by simp
    with True nk fresh kd kv show ?thesis by (simp add: keyed_no_key)
  next
    case False
    with Cons.prems(2) kv have "map_of d k = Some v" by simp
    from Cons.IH [OF kd this] False nk kv show ?thesis by simp
  qed
qed

lemma keyed_distinct_names: "keyed d \<Longrightarrow> distinct (map name_key (map snd d))"
proof -
  assume k: "keyed d"
  then have "map name_key (map snd d) = map (\<lambda>kv. Inr (fst kv)) d"
    by (simp add: keyed_def list_all_iff)
  also have "\<dots> = map Inr (map fst d)" by simp
  finally show ?thesis using k by (simp add: keyed_def distinct_map del: map_map)
qed

lemma distinct_filter_single:
  "distinct (map f xs) \<Longrightarrow> p \<in> set xs \<Longrightarrow> filter (\<lambda>q. f q = f p) xs = [p]"
proof (induction xs)
  case Nil
  then show ?case by simp
next
  case (Cons x xs)
  show ?case
  proof (cases "x = p")
    case True
    with Cons.prems(1) have "f p \<notin> f ` set xs" by simp
    then have "\<forall>q\<in>set xs. f q \<noteq> f p" by (auto simp: image_iff)
    with True show ?thesis by (simp add: filter_empty_conv)
  next
    case False
    with Cons.prems have "p \<in> set xs" and "f x \<noteq> f p" by auto
    with Cons show ?thesis by simp
  qed
qed

text \<open>
  Claim C3. On a cache whose stored records have names, at most one per name, merging a
  list of incoming records with names leaves a cache with at most one record per name; for
  every incoming name the only record of that name is the last incoming one with it; and
  every stored record whose name is not among the incoming ones is still in the list.
\<close>

theorem merge_last_write_wins:
  assumes "files s PackagesFile = Some (Json (JObj local_data))"
    and "map_of local_data ''packages'' = Some (JArr stored)"
    and "list_all has_key stored"
    and "distinct (map name_key stored)"
    and "list_all has_key incoming"
  shows "\<exists>local_data' merged.
           files (update_local_cache s (JArr incoming) now) PackagesFile =
             Some (Json (JObj local_data')) \<and>
           map_of local_data' ''packages'' = Some (JArr merged) \<and>
           distinct (map name_key merged) \<and>
           (\<forall>p\<in>set incoming. \<forall>k. name_key p = Inr k \<longrightarrow>
              filter (\<lambda>q. name_key q = Inr k) merged =
                [last (filter (\<lambda>q. name_key q = Inr k) incoming)]) \<and>
           (\<forall>p\<in>set stored. name_key p \<notin> name_key ` set incoming \<longrightarrow> p \<in> set merged)"
proof -
  from by_name_total [OF assms(3)] obtain d0 where d0: "by_name [] stored = Inr d0" by blast
  from by_name_total [OF assms(5)] obtain d1 where d1: "by_name d0 incoming = Inr d1" by blast
  have k0: "keyed d0" by (rule by_name_keyed [OF d0 keyed_Nil])
  have k1: "keyed d1" by (rule by_name_keyed [OF d1 k0])
  let ?ld = "AList.update ''client_version'' (JStr dunder_version)
              (AList.update ''last_updated'' (JInt now)
                (AList.update ''packages'' (JArr (map snd d1)) local_data))"
  have "update_local_cache_body s (JArr incoming) now = Inr (cache_after local_data d1 now)"
    using assms(1,2) d0 d1 by (intro body_eq) simp_all
  then have written_file: "files (update_local_cache s (JArr incoming) now) PackagesFile =
      Some (Json (JObj ?ld))"
    by (simp add: update_local_cache_def dump_def cache_after_def)
  have pk: "map_of ?ld ''packages'' = Some (JArr (map snd d1))"
    by (simp add: update_conv')
  have dist: "distinct (map name_key (map snd d1))" by (rule keyed_distinct_names [OF k1])
  have inc: "\<forall>p\<in>set incoming. \<forall>k. name_key p = Inr k \<longrightarrow>
      filter (\<lambda>q. name_key q = Inr k) (map snd d1) =
        [last (filter (\<lambda>q. name_key q = Inr k) incoming)]"
  proof (intro ballI allI impI)
    fix p k assume "p \<in> set incoming" "name_key p = Inr k"
    then have "filter (\<lambda>q. name_key q = Inr k) incoming \<noteq> []"
      by (auto simp: filter_empty_conv)
    with by_name_map_of [OF d1, of k]
    have "map_of d1 k = Some (last (filter (\<lambda>q. name_key q = Inr k) incoming))" by simp
    then show "filter (\<lambda>q. name_key q = Inr k) (map snd d1) =
        [last (filter (\<lambda>q. name_key q = Inr k) incoming)]"
      by (rule keyed_filter [OF k1])
  qed
  have old: "\<forall>p\<in>set stored. name_key p \<notin> name_key ` set incoming \<longrightarrow> p \<in> set (map snd d1)"
  proof (intro ballI impI)
    fix p assume p: "p \<in> set stored" and new: "name_key p \<notin> name_key ` set incoming"
    from assms(3) p obtain k where k: "name_key p = Inr k"
      by (auto simp: list_all_iff has_key_iff)
    from new k have "\<forall>q\<in>set incoming. name_key q \<noteq> Inr k"
      by (metis imageI)
    then have none: "filter (\<lambda>q. name_key q = Inr k) incoming = []"
      by (simp add: filter_empty_conv)
    from distinct_filter_single [OF assms(4) p] k
    have one: "filter (\<lambda>q. name_key q = Inr k) stored = [p]" by simp
    from by_name_map_of [OF d0, of k] one have "map_of d0 k = Some p" by simp
    with by_name_map_of [OF d1, of k] none have "map_of d1 k = Some p" by simp
    then have "(k, p) \<in> set d1" by (rule map_of_SomeD)
    then show "p \<in> set (map snd d1)" by force
  qed
  from written_file pk dist inc old show ?thesis by blast
qed

theorem merge_last_write_wins_witness:
  "files xy_cache PackagesFile =
     Some (Json (JObj [(''packages'', JArr [x_v1, helper_record]), (''last_updated'', JInt 5)])) \<and>
   map_of [(''packages'', JArr [x_v1, helper_record]), (''last_updated'', JInt 5)] ''packages'' =
     Some (JArr [x_v1, helper_record]) \<and>
   list_all has_key [x_v1, helper_record] \<and>
   distinct (map name_key [x_v1, helper_record]) \<and>
   list_all has_key [x_v2] \<and>
   files (update_local_cache xy_cache (JArr [x_v2]) 9) PackagesFile =
     Some (Json (JObj [(''packages'', JArr [x_v2, helper_record]), (''last_updated'', JInt 9),
                       (''client_version'', JStr ''0.1.0'')]))"
proof -
  have a: "files xy_cache PackagesFile =
     Some (Json (JObj [(''packages'', JArr [x_v1, helper_record]), (''last_updated'', JInt 5)]))"
    by (simp add: xy_cache_def)
  have b: "map_of [(''packages'', JArr [x_v1, helper_record]), (''last_updated'', JInt 5)]
      ''packages'' = Some (JArr [x_v1, helper_record])"
    by simp
  have nk: "name_key x_v1 = Inr (KStr ''x'')" "name_key x_v2 = Inr (KStr ''x'')"
    "name_key helper_record = Inr (KStr ''artutils'')"
    by (simp_all add: name_key_def x_v1_def x_v2_def helper_record_def andthen_def)
  have c: "list_all has_key [x_v1, helper_record]" by (simp add: has_key_def nk)
  have d: "distinct (map name_key [x_v1, helper_record])" by (simp add: nk)
  have e: "list_all has_key [x_v2]" by (simp add: has_key_def nk)
  from merge_last_write_wins [OF a b c d e, of 9] obtain local_data' merged where
    "files (update_local_cache xy_cache (JArr [x_v2]) 9) PackagesFile =
       Some (Json (JObj local_data'))"
    "map_of local_data' ''packages'' = Some (JArr merged)"
    "filter (\<lambda>q. name_key q = Inr (KStr ''x'')) merged = [x_v2]"
    using nk by auto
  then have "files (update_local_cache xy_cache (JArr [x_v2]) 9) PackagesFile =
     Some (Json (JObj [(''packages'', JArr [x_v2, helper_record]), (''last_updated'', JInt 9),
                       (''client_version'', JStr ''0.1.0'')]))"
    by (simp add: update_local_cache_def update_local_cache_body_def xy_cache_def load_def
        andthen_def dump_def x_v1_def x_v2_def helper_record_def dunder_version_def)
  with a b c d e show ?thesis by simp
qed

end
